theory Spec2Isabelle
  imports Main "HOL-Library.Sublist"
begin

section \<open>Data model\<close>

text \<open>
  A JavaScript string is a sequence of code units. The model uses \<^typ>\<open>string\<close>
  and reads each \<^typ>\<open>char\<close> as one code unit below \<open>0x100\<close>.

  A task is the object literal built in \<open>handleAddTodo\<close>; the fields \<open>id\<close> and
  \<open>text\<close> carry a prime because the plain names are taken in Isabelle. The id is the
  value of \<open>Date.now()\<close>, an integer number of milliseconds.
\<close>

record task =
  id' :: int
  text' :: string
  description :: string
  date :: string
  completed :: bool

text \<open>A history entry is the object \<open>{ action, timestamp }\<close> built in \<open>logHistory\<close>.\<close>

record historyEntry =
  action :: string
  timestamp :: string

text \<open>
  The variable \<open>state\<close> of the script (lines 21 to 25 of \<open>js/script.js\<close>): the single
  source of truth.
\<close>

record state =
  todos :: "task list"
  history :: "historyEntry list"
  currentFilter :: string

definition initial_state :: state where
  "initial_state = \<lparr>todos = [], history = [], currentFilter = ''all''\<rparr>"

section \<open>Values exchanged with the storage\<close>

text \<open>
  \<open>JSON.parse\<close> returns a dynamically typed value. \<open>jsval\<close> is the part of the
  JavaScript values that JSON text denotes, with numbers restricted to integers (the only
  numbers the script stores are ids). An object keeps its properties in insertion order.
\<close>

datatype jsval =
    JNull
  | JBool bool
  | JNum int
  | JStr string
  | JArr "jsval list"
  | JObj "(string \<times> jsval) list"

text \<open>The object a task is, property by property in the order of the literal.\<close>

definition task_js :: "task \<Rightarrow> jsval" where
  "task_js t = JObj [(''id'', JNum (id' t)), (''text'', JStr (text' t)),
     (''description'', JStr (description t)), (''date'', JStr (date t)),
     (''completed'', JBool (completed t))]"

definition entry_js :: "historyEntry \<Rightarrow> jsval" where
  "entry_js e = JObj [(''action'', JStr (action e)), (''timestamp'', JStr (timestamp e))]"

definition todos_js :: "task list \<Rightarrow> jsval" where
  "todos_js ts = JArr (map task_js ts)"

definition history_js :: "historyEntry list \<Rightarrow> jsval" where
  "history_js h = JArr (map entry_js h)"

text \<open>
  Reading a value back as typed data. The typed state holds exactly the arrays of objects
  of the two shapes above; any other value (which JavaScript would store in \<open>state\<close> as
  it is) has no counterpart in the typed state and is \<open>None\<close>.
\<close>

fun num_of :: "jsval \<Rightarrow> int option" where
  "num_of (JNum i) = Some i"
| "num_of _ = None"

fun str_of :: "jsval \<Rightarrow> string option" where
  "str_of (JStr s) = Some s"
| "str_of _ = None"

fun bool_of :: "jsval \<Rightarrow> bool option" where
  "bool_of (JBool b) = Some b"
| "bool_of _ = None"

definition task_of_props :: "(string \<times> jsval) list \<Rightarrow> task option" where
  "task_of_props kvs =
     (if map fst kvs = [''id'', ''text'', ''description'', ''date'', ''completed'']
      then (case (num_of (snd (kvs ! 0)), str_of (snd (kvs ! 1)), str_of (snd (kvs ! 2)),
                  str_of (snd (kvs ! 3)), bool_of (snd (kvs ! 4))) of
              (Some i, Some t, Some d, Some dt, Some c) \<Rightarrow>
                Some \<lparr>id' = i, text' = t, description = d, date = dt, completed = c\<rparr>
            | _ \<Rightarrow> None)
      else None)"

fun js_task :: "jsval \<Rightarrow> task option" where
  "js_task (JObj kvs) = task_of_props kvs"
| "js_task _ = None"

definition entry_of_props :: "(string \<times> jsval) list \<Rightarrow> historyEntry option" where
  "entry_of_props kvs =
     (if map fst kvs = [''action'', ''timestamp'']
      then (case (str_of (snd (kvs ! 0)), str_of (snd (kvs ! 1))) of
              (Some a, Some ts) \<Rightarrow> Some \<lparr>action = a, timestamp = ts\<rparr>
            | _ \<Rightarrow> None)
      else None)"

fun js_entry :: "jsval \<Rightarrow> historyEntry option" where
  "js_entry (JObj kvs) = entry_of_props kvs"
| "js_entry _ = None"

fun those_map :: "('a \<Rightarrow> 'b option) \<Rightarrow> 'a list \<Rightarrow> 'b list option" where
  "those_map f [] = Some []"
| "those_map f (x # xs) =
     (case f x of None \<Rightarrow> None
      | Some y \<Rightarrow> (case those_map f xs of None \<Rightarrow> None | Some ys \<Rightarrow> Some (y # ys)))"

fun js_todos :: "jsval \<Rightarrow> task list option" where
  "js_todos (JArr vs) = those_map js_task vs"
| "js_todos _ = None"

fun js_history :: "jsval \<Rightarrow> historyEntry list option" where
  "js_history (JArr vs) = those_map js_entry vs"
| "js_history _ = None"

section \<open>The platform and the world of the script\<close>

text \<open>
  \<open>JSON.stringify\<close> and \<open>JSON.parse\<close> belong to the platform, not to the script, so
  they are parameters of the model. \<open>JSON_parse\<close> returns \<open>None\<close> where
  \<open>JSON.parse\<close> throws a \<open>SyntaxError\<close>.
\<close>

record platform =
  JSON_stringify :: "jsval \<Rightarrow> string"
  JSON_parse :: "string \<Rightarrow> jsval option"

text \<open>
  What the script reads and writes: its \<open>state\<close> variable, \<open>localStorage\<close>
  (\<open>getItem\<close> is the lookup, \<open>setItem\<close> the update of a map from keys to
  strings, and a write is taken to succeed), the text of the \<open>.error-message\<close> element
  and the children of the \<open>.todo-list\<close> element. A rendered task element is represented
  by the task it shows; CSS classes, the focus and the reset of the form are not part of
  the model.
\<close>

datatype node = EmptyMessage | TodoElement task

record world =
  state :: state
  localStorage :: "string \<rightharpoonup> string"
  errorMessage :: string
  todoList :: "node list"

section \<open>Core functions\<close>

definition filteredTodos :: "state \<Rightarrow> task list" where
  \<comment> \<open>the \<open>filter\<close> call at the head of \<open>render\<close>, lines 36 to 40\<close>
  "filteredTodos s =
     filter (\<lambda>todo.
        if currentFilter s = ''completed'' then completed todo
        else if currentFilter s = ''incomplete'' then \<not> completed todo
        else True) (todos s)"

definition render :: "world \<Rightarrow> world" where
  \<comment> \<open>lines 33 to 56: the placeholder when nothing passes the filter\<close>
  "render w =
     (let filtered = filteredTodos (state w)
      in w\<lparr>todoList := (if length filtered = 0 then [EmptyMessage]
                           else map TodoElement filtered)\<rparr>)"

definition showError :: "string \<Rightarrow> world \<Rightarrow> world" where
  "showError message w = w\<lparr>errorMessage := message\<rparr>"

definition hideError :: "world \<Rightarrow> world" where
  "hideError w = w\<lparr>errorMessage := ''''\<rparr>"

section \<open>Local storage and state management\<close>

definition checkStorage :: "platform \<Rightarrow> (string \<rightharpoonup> string) \<Rightarrow> string \<Rightarrow> jsval" where
  \<comment> \<open>lines 165 to 173: \<open>data ? JSON.parse(data) : []\<close> inside \<open>try\<close>; \<open>null\<close> and the
      empty string are falsy, and the \<open>catch\<close> branch returns \<open>[]\<close>\<close>
  "checkStorage P ls key =
     (case ls key of
        None \<Rightarrow> JArr []
      | Some data \<Rightarrow>
          if data = '''' then JArr []
          else (case JSON_parse P data of None \<Rightarrow> JArr [] | Some v \<Rightarrow> v))"

definition saveState :: "platform \<Rightarrow> world \<Rightarrow> world" where
  \<comment> \<open>lines 175 to 178\<close>
  "saveState P w =
     w\<lparr>localStorage :=
         ((localStorage w)(''todos'' \<mapsto> JSON_stringify P (todos_js (todos (state w)))))
           (''history'' \<mapsto> JSON_stringify P (history_js (history (state w))))\<rparr>"

definition loadState :: "platform \<Rightarrow> world \<Rightarrow> world option" where
  \<comment> \<open>lines 180 to 183; \<open>None\<close>: a loaded value is not an array of tasks (of history
      entries)\<close>
  "loadState P w =
     (case js_todos (checkStorage P (localStorage w) ''todos'') of
        None \<Rightarrow> None
      | Some ts \<Rightarrow>
          (case js_history (checkStorage P (localStorage w) ''history'') of
             None \<Rightarrow> None
           | Some h \<Rightarrow> Some (w\<lparr>state := (state w)\<lparr>todos := ts, history := h\<rparr>\<rparr>)))"

definition logHistory :: "string \<Rightarrow> string \<Rightarrow> state \<Rightarrow> state" where
  \<comment> \<open>lines 185 to 192; the second argument is the formatted \<open>new Date()\<close> read by the
      call\<close>
  "logHistory act ts s =
     (let h = \<lparr>action = act, timestamp = ts\<rparr> # history s
      in s\<lparr>history := (if length h > 30 then butlast h else h)\<rparr>)"

section \<open>Event handlers\<close>

definition dq :: char where
  "dq = CHR 0x22"

definition is_white_space :: "char \<Rightarrow> bool" where
  \<comment> \<open>the white space and line terminator code units below \<open>0x100\<close>, which
      \<open>String.prototype.trim\<close> strips\<close>
  "is_white_space c =
     (c \<in> set [CHR 0x09, CHR 0x0A, CHR 0x0B, CHR 0x0C, CHR 0x0D, CHR 0x20, CHR 0xA0])"

definition trim :: "string \<Rightarrow> string" where
  "trim s = rev (dropWhile is_white_space (rev (dropWhile is_white_space s)))"

text \<open>
  A submission carries what the handler reads from its environment: the value of
  \<open>Date.now()\<close>, the formatted time read by \<open>logHistory\<close>, and the values of the three
  inputs of the form.
\<close>

record submission =
  now :: int
  stamp :: string
  todoInput :: string
  todoDateInput :: string
  todoDescriptionInput :: string

definition handleAddTodo :: "platform \<Rightarrow> submission \<Rightarrow> world \<Rightarrow> world" where
  \<comment> \<open>lines 83 to 114\<close>
  "handleAddTodo P e w =
     (let title = trim (todoInput e); d = todoDateInput e
      in if title = '''' \<or> d = ''''
         then showError ''Task title and date cannot be empty!'' w
         else
           (let w1 = hideError w;
                newTodo = \<lparr>id' = now e, text' = title,
                            description = trim (todoDescriptionInput e),
                            date = d, completed = False\<rparr>;
                s1 = (state w1)\<lparr>todos := todos (state w1) @ [newTodo]\<rparr>;
                s2 = logHistory (''Added task: '' @ [dq] @ text' newTodo @ [dq]) (stamp e) s1
            in render (saveState P (w1\<lparr>state := s2\<rparr>))))"

text \<open>
  A click carries the results of the \<open>closest\<close> calls on its target: the \<open>data-id\<close> of
  the enclosing \<open>.todo\<close> element if there is one, as the number it denotes (an integer,
  as \<open>createTodoElement\<close> writes it), and whether the target lies in a \<open>.trash-btn\<close>,
  a \<open>.complete-btn\<close>, a \<open>.todo-item\<close>; and the time read by \<open>logHistory\<close>.
\<close>

record click =
  todoDiv :: "int option"
  in_trash_btn :: bool
  in_complete_btn :: bool
  in_todo_item :: bool
  click_stamp :: string

fun toggle_first :: "int \<Rightarrow> task list \<Rightarrow> task list" where
  \<comment> \<open>\<open>find\<close> returns the first match, whose \<open>completed\<close> is then flipped in place\<close>
  "toggle_first i [] = []"
| "toggle_first i (t # ts) =
     (if id' t = i then t\<lparr>completed := \<not> completed t\<rparr> # ts else t # toggle_first i ts)"

definition handleListClick :: "platform \<Rightarrow> click \<Rightarrow> world \<Rightarrow> world" where
  \<comment> \<open>lines 121 to 151\<close>
  "handleListClick P e w =
     (case todoDiv e of
        None \<Rightarrow> w
      | Some todoId \<Rightarrow>
          (let s = state w;
               taskText = (case find (\<lambda>t. id' t = todoId) (todos s) of
                             None \<Rightarrow> '''' | Some t \<Rightarrow> text' t)
           in if in_trash_btn e then
                (let s1 = s\<lparr>todos := filter (\<lambda>todo. id' todo \<noteq> todoId) (todos s)\<rparr>;
                     s2 = logHistory (''Removed task: '' @ [dq] @ taskText @ [dq])
                            (click_stamp e) s1
                 in render (saveState P (w\<lparr>state := s2\<rparr>)))
              else if in_complete_btn e then
                (case find (\<lambda>todo. id' todo = todoId) (todos s) of
                   None \<Rightarrow> w
                 | Some todoToUpdate \<Rightarrow>
                     (let s1 = s\<lparr>todos := toggle_first todoId (todos s)\<rparr>;
                          act = (if \<not> completed todoToUpdate then ''Completed''
                                 else ''Marked as incomplete'');
                          s2 = logHistory (act @ '' task: '' @ [dq] @ taskText @ [dq])
                                 (click_stamp e) s1
                      in render (saveState P (w\<lparr>state := s2\<rparr>))))
              else if in_todo_item e then w  \<comment> \<open>toggles a CSS class only\<close>
              else w))"

definition handleFilterChange :: "string \<Rightarrow> world \<Rightarrow> world" where
  \<comment> \<open>lines 157 to 160\<close>
  "handleFilterChange v w = render (w\<lparr>state := (state w)\<lparr>currentFilter := v\<rparr>\<rparr>)"

text \<open>
  The listeners registered at the end of the script (lines 280 to 282), as one dispatch on
  the event; each handler runs to its end before the next event is handled.
\<close>

datatype event = Submit submission | Click click | Change string

fun dispatch :: "platform \<Rightarrow> event \<Rightarrow> world \<Rightarrow> world" where
  "dispatch P (Submit e) w = handleAddTodo P e w"
| "dispatch P (Click e) w = handleListClick P e w"
| "dispatch P (Change v) w = handleFilterChange v w"

fun run :: "platform \<Rightarrow> event list \<Rightarrow> world \<Rightarrow> world" where
  "run P [] w = w"
| "run P (e # es) w = run P es (dispatch P e w)"

text \<open>The \<open>DOMContentLoaded\<close> listener (lines 275 to 278): load, then render.\<close>

definition startup :: "platform \<Rightarrow> world \<Rightarrow> world option" where
  "startup P w = map_option render (loadState P w)"

text \<open>
  A load of the page: the script sets \<open>state\<close> to its initial value (lines 21 to 25) and
  the \<open>DOMContentLoaded\<close> listener runs on what the storage holds. The error message
  element is taken to start empty and the list to start without children.
\<close>

definition page_load :: "platform \<Rightarrow> (string \<rightharpoonup> string) \<Rightarrow> world option" where
  "page_load P ls =
     startup P \<lparr>state = initial_state, localStorage = ls, errorMessage = '''', todoList = []\<rparr>"

text \<open>
  The life of the page after its first load: events are handled, and the page may be
  loaded again on the storage it left (the storage is all that survives a reload).
\<close>

datatype step = Handle event | Reload

fun life :: "platform \<Rightarrow> step list \<Rightarrow> world \<Rightarrow> world option" where
  "life P [] w = Some w"
| "life P (Handle ev # ss) w = life P ss (dispatch P ev w)"
| "life P (Reload # ss) w =
     (case page_load P (localStorage w) of None \<Rightarrow> None | Some w' \<Rightarrow> life P ss w')"

section \<open>Names for what the handlers build\<close>

text \<open>
  The statements below name the pieces of the handlers: the test that lets a submission
  through, the task and the history entry an accepted submission builds, and the text and
  entry a click on a delete button logs.
\<close>

definition valid_submission :: "submission \<Rightarrow> bool" where
  "valid_submission e = (trim (todoInput e) \<noteq> '''' \<and> todoDateInput e \<noteq> '''')"

definition new_task :: "submission \<Rightarrow> task" where
  "new_task e = \<lparr>id' = now e, text' = trim (todoInput e),
     description = trim (todoDescriptionInput e), date = todoDateInput e,
     completed = False\<rparr>"

definition added_entry :: "submission \<Rightarrow> historyEntry" where
  "added_entry e =
     \<lparr>action = ''Added task: '' @ [dq] @ trim (todoInput e) @ [dq], timestamp = stamp e\<rparr>"

definition task_text :: "int \<Rightarrow> task list \<Rightarrow> string" where
  \<comment> \<open>\<open>state.todos.find(t => t.id === todoId)?.text || ''\<close>\<close>
  "task_text i ts = (case find (\<lambda>t. id' t = i) ts of None \<Rightarrow> '''' | Some t \<Rightarrow> text' t)"

definition removed_entry :: "int \<Rightarrow> string \<Rightarrow> task list \<Rightarrow> historyEntry" where
  "removed_entry i ts tasks =
     \<lparr>action = ''Removed task: '' @ [dq] @ task_text i tasks @ [dq], timestamp = ts\<rparr>"

definition toggled_entry :: "task \<Rightarrow> string \<Rightarrow> historyEntry" where
  \<comment> \<open>the entry logged when the task \<open>t\<close>, as it was before the click, is toggled\<close>
  "toggled_entry t ts =
     \<lparr>action = (if \<not> completed t then ''Completed'' else ''Marked as incomplete'')
                 @ '' task: '' @ [dq] @ text' t @ [dq],
      timestamp = ts\<rparr>"

definition stored_history_ok :: "platform \<Rightarrow> (string \<rightharpoonup> string) \<Rightarrow> bool" where
  \<comment> \<open>what a load would read as the history has at most 30 entries\<close>
  "stored_history_ok P ls =
     (case js_history (checkStorage P ls ''history'') of
        None \<Rightarrow> True
      | Some h \<Rightarrow> length h \<le> 30)"

definition stored_typed :: "platform \<Rightarrow> (string \<rightharpoonup> string) \<Rightarrow> bool" where
  \<comment> \<open>what a load would read are an array of tasks and an array of history entries\<close>
  "stored_typed P ls =
     (js_todos (checkStorage P ls ''todos'') \<noteq> None
      \<and> js_history (checkStorage P ls ''history'') \<noteq> None)"

section \<open>A reference platform\<close>

text \<open>
  One platform to run the model on: a serialiser that writes the compact JSON text of a
  value (no white space, strings escaped as \<open>JSON.stringify\<close> escapes them, integers
  in decimal digits) and a recursive-descent reader of JSON text. The reader covers the
  values of \<open>jsval\<close>: a number with a fraction or an exponent, or an escape of a code
  unit from \<open>0x100\<close> on, is outside them and read as an error. The theorems about the
  script hold for every platform; this one instantiates them.
\<close>

definition bs :: char where
  "bs = CHR 0x5C"

fun index_of :: "char \<Rightarrow> string \<Rightarrow> nat option" where
  "index_of c [] = None"
| "index_of c (d # ds) = (if c = d then Some 0 else map_option Suc (index_of c ds))"

definition hex_digit :: "nat \<Rightarrow> char" where
  "hex_digit n = ''0123456789abcdef'' ! n"

definition escape_char :: "char \<Rightarrow> string" where
  "escape_char c =
     (if c = dq then [bs, dq]
      else if c = bs then [bs, bs]
      else if c = CHR 0x08 then [bs, CHR ''b'']
      else if c = CHR 0x0C then [bs, CHR ''f'']
      else if c = CHR 0x0A then [bs, CHR ''n'']
      else if c = CHR 0x0D then [bs, CHR ''r'']
      else if c = CHR 0x09 then [bs, CHR ''t'']
      else if (of_char c :: nat) < 0x20
        then [bs, CHR ''u'', CHR ''0'', CHR ''0'',
              hex_digit (of_char c div 16), hex_digit (of_char c mod 16)]
      else [c])"

definition quote :: "string \<Rightarrow> string" where
  "quote s = dq # concat (map escape_char s) @ [dq]"

definition digit_char :: "nat \<Rightarrow> char" where
  "digit_char n = ''0123456789'' ! n"

fun digits :: "nat \<Rightarrow> string" where
  "digits n = (if n < 10 then [digit_char n] else digits (n div 10) @ [digit_char (n mod 10)])"

declare digits.simps [simp del]

definition number_text :: "int \<Rightarrow> string" where
  "number_text i = (if i < 0 then CHR ''-'' # digits (nat (- i)) else digits (nat i))"

fun stringify :: "jsval \<Rightarrow> string"
  and stringify_elems :: "jsval list \<Rightarrow> string"
  and stringify_members :: "(string \<times> jsval) list \<Rightarrow> string" where
  "stringify JNull = ''null''"
| "stringify (JBool b) = (if b then ''true'' else ''false'')"
| "stringify (JNum i) = number_text i"
| "stringify (JStr s) = quote s"
| "stringify (JArr vs) = ''['' @ stringify_elems vs @ '']''"
| "stringify (JObj kvs) = ''{'' @ stringify_members kvs @ ''}''"
| "stringify_elems [] = ''''"
| "stringify_elems [v] = stringify v"
| "stringify_elems (v # w # vs) = stringify v @ '','' @ stringify_elems (w # vs)"
| "stringify_members [] = ''''"
| "stringify_members [(k, v)] = quote k @ '':'' @ stringify v"
| "stringify_members ((k, v) # m # kvs) =
     quote k @ '':'' @ stringify v @ '','' @ stringify_members (m # kvs)"

definition is_json_ws :: "char \<Rightarrow> bool" where
  "is_json_ws c = (c = CHR 0x20 \<or> c = CHR 0x09 \<or> c = CHR 0x0A \<or> c = CHR 0x0D)"

definition skip_ws :: "string \<Rightarrow> string" where
  "skip_ws s = dropWhile is_json_ws s"

definition is_digit :: "char \<Rightarrow> bool" where
  "is_digit c = (index_of c ''0123456789'' \<noteq> None)"

definition digit_val :: "char \<Rightarrow> nat" where
  "digit_val c = (case index_of c ''0123456789'' of None \<Rightarrow> 0 | Some n \<Rightarrow> n)"

definition hex_val :: "char \<Rightarrow> nat option" where
  "hex_val c =
     (case index_of c ''0123456789abcdef'' of
        Some n \<Rightarrow> Some n
      | None \<Rightarrow> map_option (\<lambda>n. n + 10) (index_of c ''ABCDEF''))"

fun digits_val :: "nat \<Rightarrow> string \<Rightarrow> nat" where
  "digits_val acc [] = acc"
| "digits_val acc (c # cs) = digits_val (10 * acc + digit_val c) cs"

definition parse_nat :: "string \<Rightarrow> (nat \<times> string) option" where
  \<comment> \<open>\<open>0\<close>, or a non-zero digit followed by digits; no fraction, no exponent\<close>
  "parse_nat s =
     (let ds = takeWhile is_digit s; r = dropWhile is_digit s
      in if ds = [] \<or> (hd ds = CHR ''0'' \<and> length ds > 1) then None
         else if r \<noteq> [] \<and> hd r \<in> set ''.eE'' then None
         else Some (digits_val 0 ds, r))"

definition parse_number :: "string \<Rightarrow> (jsval \<times> string) option" where
  "parse_number s =
     (case s of
        [] \<Rightarrow> None
      | c # cs \<Rightarrow>
          if c = CHR ''-''
          then map_option (\<lambda>(n, r). (JNum (- int n), r)) (parse_nat cs)
          else map_option (\<lambda>(n, r). (JNum (int n), r)) (parse_nat s))"

definition unescape :: "char \<Rightarrow> char option" where
  "unescape e =
     (if e = dq then Some dq
      else if e = bs then Some bs
      else if e = CHR ''/'' then Some CHR ''/''
      else if e = CHR ''b'' then Some (CHR 0x08)
      else if e = CHR ''f'' then Some (CHR 0x0C)
      else if e = CHR ''n'' then Some (CHR 0x0A)
      else if e = CHR ''r'' then Some (CHR 0x0D)
      else if e = CHR ''t'' then Some (CHR 0x09)
      else None)"

definition unicode_escape :: "char \<Rightarrow> char \<Rightarrow> char \<Rightarrow> char \<Rightarrow> char option" where
  \<comment> \<open>four hex digits that denote a code unit below \<open>0x100\<close>\<close>
  "unicode_escape a b c d =
     (case (hex_val a, hex_val b, hex_val c, hex_val d) of
        (Some 0, Some 0, Some h, Some l) \<Rightarrow> Some (char_of (16 * h + l))
      | _ \<Rightarrow> None)"

fun cons_fst :: "'a \<Rightarrow> ('a list \<times> 'b) option \<Rightarrow> ('a list \<times> 'b) option" where
  "cons_fst x None = None"
| "cons_fst x (Some (xs, r)) = Some (x # xs, r)"

fun parse_string :: "string \<Rightarrow> (string \<times> string) option" where
  \<comment> \<open>the input after the opening quote\<close>
  "parse_string [] = None"
| "parse_string (c # cs) =
     (if c = dq then Some ([], cs)
      else if c = bs then
        (case cs of
           [] \<Rightarrow> None
         | e # r \<Rightarrow>
             if e = CHR ''u'' then
               (case r of
                  h1 # h2 # h3 # h4 # r' \<Rightarrow>
                    (case unicode_escape h1 h2 h3 h4 of
                       None \<Rightarrow> None
                     | Some ch \<Rightarrow> cons_fst ch (parse_string r'))
                | _ \<Rightarrow> None)
             else (case unescape e of
                     None \<Rightarrow> None
                   | Some ch \<Rightarrow> cons_fst ch (parse_string r)))
      else if (of_char c :: nat) < 0x20 then None
      else cons_fst c (parse_string cs))"

fun expect :: "string \<Rightarrow> 'a \<Rightarrow> string \<Rightarrow> ('a \<times> string) option" where
  "expect lit v s =
     (if take (length lit) s = lit then Some (v, drop (length lit) s) else None)"

text \<open>
  The three mutually recursive readers take fuel, so that they are defined by recursion
  on it; \<open>parse\<close> gives them more than a text of its length can use.
\<close>

fun parse_value :: "nat \<Rightarrow> string \<Rightarrow> (jsval \<times> string) option"
  and parse_elems :: "nat \<Rightarrow> string \<Rightarrow> (jsval list \<times> string) option"
  and parse_members :: "nat \<Rightarrow> string \<Rightarrow> ((string \<times> jsval) list \<times> string) option" where
  "parse_value 0 s = None"
| "parse_value (Suc n) s =
     (case skip_ws s of
        [] \<Rightarrow> None
      | c # cs \<Rightarrow>
          if c = CHR ''n'' then expect ''ull'' JNull cs
          else if c = CHR ''t'' then expect ''rue'' (JBool True) cs
          else if c = CHR ''f'' then expect ''alse'' (JBool False) cs
          else if c = dq then map_option (\<lambda>(x, r). (JStr x, r)) (parse_string cs)
          else if c = CHR ''['' then
            (case skip_ws cs of
               [] \<Rightarrow> None
             | d # ds \<Rightarrow>
                 if d = CHR '']'' then Some (JArr [], ds)
                 else map_option (\<lambda>(vs, r). (JArr vs, r)) (parse_elems n cs))
          else if c = CHR ''{'' then
            (case skip_ws cs of
               [] \<Rightarrow> None
             | d # ds \<Rightarrow>
                 if d = CHR ''}'' then Some (JObj [], ds)
                 else map_option (\<lambda>(kvs, r). (JObj kvs, r)) (parse_members n cs))
          else parse_number (c # cs))"
| "parse_elems 0 s = None"
| "parse_elems (Suc n) s =
     (case parse_value n s of
        None \<Rightarrow> None
      | Some (v, r) \<Rightarrow>
          (case skip_ws r of
             [] \<Rightarrow> None
           | d # ds \<Rightarrow>
               if d = CHR '','' then cons_fst v (parse_elems n ds)
               else if d = CHR '']'' then Some ([v], ds)
               else None))"
| "parse_members 0 s = None"
| "parse_members (Suc n) s =
     (case skip_ws s of
        [] \<Rightarrow> None
      | q # cs \<Rightarrow>
          if q \<noteq> dq then None
          else
            (case parse_string cs of
               None \<Rightarrow> None
             | Some (k, r) \<Rightarrow>
                 (case skip_ws r of
                    [] \<Rightarrow> None
                  | col # r1 \<Rightarrow>
                      if col \<noteq> CHR '':'' then None
                      else
                        (case parse_value n r1 of
                           None \<Rightarrow> None
                         | Some (v, r2) \<Rightarrow>
                             (case skip_ws r2 of
                                [] \<Rightarrow> None
                              | d # ds \<Rightarrow>
                                  if d = CHR '','' then cons_fst (k, v) (parse_members n ds)
                                  else if d = CHR ''}'' then Some ([(k, v)], ds)
                                  else None)))))"

definition parse :: "string \<Rightarrow> jsval option" where
  "parse s =
     (case parse_value (Suc (length s)) s of
        None \<Rightarrow> None
      | Some (v, r) \<Rightarrow> if skip_ws r = [] then Some v else None)"

definition ref_platform :: platform where
  "ref_platform = \<lparr>JSON_stringify = stringify, JSON_parse = parse\<rparr>"

text \<open>The fuel that reading back the text of a value takes.\<close>

fun need :: "jsval \<Rightarrow> nat"
  and need_elems :: "jsval list \<Rightarrow> nat"
  and need_members :: "(string \<times> jsval) list \<Rightarrow> nat" where
  "need (JArr vs) = Suc (need_elems vs)"
| "need (JObj kvs) = Suc (need_members kvs)"
| "need JNull = 1"
| "need (JBool b) = 1"
| "need (JNum i) = 1"
| "need (JStr s) = 1"
| "need_elems [] = 0"
| "need_elems (v # vs) = Suc (max (need v) (need_elems vs))"
| "need_members [] = 0"
| "need_members ((k, v) # kvs) = Suc (max (need v) (need_members kvs))"

definition number_follow :: "string \<Rightarrow> bool" where
  \<comment> \<open>what may stand after the digits of a number\<close>
  "number_follow r = (r = [] \<or> (\<not> is_digit (hd r) \<and> hd r \<notin> set ''.eE''))"

definition value_start :: "char \<Rightarrow> bool" where
  \<comment> \<open>the first character of the text of a value\<close>
  "value_start c = (c \<in> set ''ntf[{-'' \<or> c = dq \<or> is_digit c)"

section \<open>Example inputs\<close>

definition milk :: task where
  "milk = \<lparr>id' = 1704067200000, text' = ''Buy milk'', description = '''',
     date = ''2024-01-01'', completed = False\<rparr>"

definition bread :: task where
  "bread = \<lparr>id' = 1704067260000, text' = ''Buy bread'', description = ''rye'',
     date = ''2024-01-02'', completed = False\<rparr>"

definition eggs :: task where
  "eggs = \<lparr>id' = 1704067320000, text' = ''Buy eggs'', description = '''',
     date = ''2024-01-02'', completed = True\<rparr>"

definition milk_submission :: submission where
  "milk_submission = \<lparr>now = 1704067200000, stamp = ''01/01/2024, 10:00'',
     todoInput = ''  Buy milk '', todoDateInput = ''2024-01-01'',
     todoDescriptionInput = ''''\<rparr>"

definition blank_submission :: submission where
  "blank_submission = \<lparr>now = 1704067200000, stamp = ''01/01/2024, 10:00'',
     todoInput = ''   '', todoDateInput = ''2024-01-01'', todoDescriptionInput = ''''\<rparr>"

definition bread_submission :: submission where
  "bread_submission = \<lparr>now = 1704067260000, stamp = ''01/01/2024, 10:01'',
     todoInput = ''Buy bread'', todoDateInput = ''2024-01-02'',
     todoDescriptionInput = '' rye ''\<rparr>"

text \<open>A second submission in the millisecond of the first.\<close>

definition rolls_submission :: submission where
  "rolls_submission = \<lparr>now = 1704067260000, stamp = ''01/01/2024, 10:01'',
     todoInput = ''Buy rolls'', todoDateInput = ''2024-01-02'',
     todoDescriptionInput = ''''\<rparr>"

definition rolls :: task where
  "rolls = \<lparr>id' = 1704067260000, text' = ''Buy rolls'', description = '''',
     date = ''2024-01-02'', completed = False\<rparr>"

definition empty_world :: world where
  "empty_world = \<lparr>state = initial_state, localStorage = Map.empty, errorMessage = '''',
     todoList = [EmptyMessage]\<rparr>"

definition one_task_world :: world where
  "one_task_world = \<lparr>state = \<lparr>todos = [milk], history = [], currentFilter = ''all''\<rparr>,
     localStorage = Map.empty, errorMessage = '''', todoList = [TodoElement milk]\<rparr>"

definition twin_world :: world where
  "twin_world = \<lparr>state = \<lparr>todos = [bread, rolls], history = [], currentFilter = ''all''\<rparr>,
     localStorage = Map.empty, errorMessage = '''',
     todoList = [TodoElement bread, TodoElement rolls]\<rparr>"

definition stale_trash_click :: click where
  "stale_trash_click = \<lparr>todoDiv = Some 42, in_trash_btn = True, in_complete_btn = False,
     in_todo_item = False, click_stamp = ''01/01/2024, 10:05''\<rparr>"

definition milk_trash_click :: click where
  "milk_trash_click = \<lparr>todoDiv = Some 1704067200000, in_trash_btn = True,
     in_complete_btn = False, in_todo_item = False, click_stamp = ''01/01/2024, 10:05''\<rparr>"

definition bread_trash_click :: click where
  "bread_trash_click = \<lparr>todoDiv = Some 1704067260000, in_trash_btn = True,
     in_complete_btn = False, in_todo_item = False, click_stamp = ''01/01/2024, 10:05''\<rparr>"

definition milk_complete_click :: click where
  "milk_complete_click = \<lparr>todoDiv = Some 1704067200000, in_trash_btn = False,
     in_complete_btn = True, in_todo_item = False, click_stamp = ''01/01/2024, 10:02''\<rparr>"

definition stale_complete_click :: click where
  "stale_complete_click = \<lparr>todoDiv = Some 42, in_trash_btn = False, in_complete_btn = True,
     in_todo_item = False, click_stamp = ''01/01/2024, 10:05''\<rparr>"

definition old_entry :: historyEntry where
  "old_entry = \<lparr>action = ''Completed task: '' @ [dq] @ ''Buy milk'' @ [dq],
     timestamp = ''31/12/2023, 09:00''\<rparr>"

text \<open>The world after \<open>milk_submission\<close> on the first load of the page.\<close>

definition milk_added_world :: world where
  "milk_added_world =
     \<lparr>state = \<lparr>todos = [milk],
               history = [\<lparr>action = ''Added task: '' @ [dq] @ ''Buy milk'' @ [dq],
                           timestamp = ''01/01/2024, 10:00''\<rparr>],
               currentFilter = ''all''\<rparr>,
      localStorage = [''todos'' \<mapsto> stringify (todos_js [milk]),
        ''history'' \<mapsto> stringify (history_js
          [\<lparr>action = ''Added task: '' @ [dq] @ ''Buy milk'' @ [dq],
            timestamp = ''01/01/2024, 10:00''\<rparr>])],
      errorMessage = '''', todoList = [TodoElement milk]\<rparr>"

text \<open>A history at its cap, and one entry past it as a stored array can be.\<close>

definition full_world :: world where
  "full_world =
     \<lparr>state = \<lparr>todos = [], history = replicate 30 old_entry, currentFilter = ''all''\<rparr>,
      localStorage = Map.empty, errorMessage = '''', todoList = [EmptyMessage]\<rparr>"

definition overfull_storage_world :: world where
  "overfull_storage_world = \<lparr>state = initial_state,
     localStorage = [''history'' \<mapsto> stringify (history_js (replicate 31 old_entry))],
     errorMessage = '''', todoList = []\<rparr>"

definition overfull_world :: world where
  "overfull_world =
     \<lparr>state = \<lparr>todos = [], history = replicate 31 old_entry, currentFilter = ''all''\<rparr>,
      localStorage = [''history'' \<mapsto> stringify (history_js (replicate 31 old_entry))],
      errorMessage = '''', todoList = [EmptyMessage]\<rparr>"

section \<open>What the core functions leave alone\<close>

lemma state_render [simp]: "state (render w) = state w"
  by (simp add: render_def Let_def)

lemma localStorage_render [simp]: "localStorage (render w) = localStorage w"
  by (simp add: render_def Let_def)

lemma errorMessage_render [simp]: "errorMessage (render w) = errorMessage w"
  by (simp add: render_def Let_def)

lemma state_saveState [simp]: "state (saveState P w) = state w"
  by (simp add: saveState_def)

lemma errorMessage_saveState [simp]: "errorMessage (saveState P w) = errorMessage w"
  by (simp add: saveState_def)

lemma todos_logHistory [simp]: "todos (logHistory a ts s) = todos s"
  by (simp add: logHistory_def Let_def)

lemma currentFilter_logHistory [simp]: "currentFilter (logHistory a ts s) = currentFilter s"
  by (simp add: logHistory_def Let_def)

lemma history_handleFilterChange [simp]:
  "history (state (handleFilterChange v w)) = history (state w)"
  by (simp add: handleFilterChange_def)

lemma todos_handleFilterChange [simp]:
  "todos (state (handleFilterChange v w)) = todos (state w)"
  by (simp add: handleFilterChange_def)

lemma localStorage_handleFilterChange [simp]:
  "localStorage (handleFilterChange v w) = localStorage w"
  by (simp add: handleFilterChange_def)

section \<open>The history log\<close>

lemma history_logHistory:
  "history (logHistory a ts s) =
     (if length (history s) < 30 then \<lparr>action = a, timestamp = ts\<rparr> # history s
      else \<lparr>action = a, timestamp = ts\<rparr> # butlast (history s))"
  by (simp add: logHistory_def Let_def)

lemma length_history_logHistory:
  "length (history (logHistory a ts s)) =
     (if length (history s) < 30 then Suc (length (history s)) else length (history s))"
  by (auto simp add: history_logHistory)

section \<open>The handlers, branch by branch\<close>

lemma state_handleAddTodo_valid:
  assumes "valid_submission e"
  shows "state (handleAddTodo P e w) =
    logHistory (''Added task: '' @ [dq] @ trim (todoInput e) @ [dq]) (stamp e)
      ((state w)\<lparr>todos := todos (state w) @ [new_task e]\<rparr>)"
  using assms
  by (simp add: handleAddTodo_def valid_submission_def Let_def hideError_def new_task_def)

lemma handleAddTodo_invalid:
  assumes "\<not> valid_submission e"
  shows "handleAddTodo P e w = w\<lparr>errorMessage := ''Task title and date cannot be empty!''\<rparr>"
  using assms
  by (auto simp add: handleAddTodo_def valid_submission_def Let_def showError_def)

lemma handleListClick_outside [simp]:
  "todoDiv e = None \<Longrightarrow> handleListClick P e w = w"
  by (simp add: handleListClick_def)

lemma state_handleListClick_trash:
  assumes "todoDiv e = Some i" and "in_trash_btn e"
  shows "state (handleListClick P e w) =
    logHistory (''Removed task: '' @ [dq] @ task_text i (todos (state w)) @ [dq]) (click_stamp e)
      ((state w)\<lparr>todos := filter (\<lambda>todo. id' todo \<noteq> i) (todos (state w))\<rparr>)"
  using assms by (simp add: handleListClick_def Let_def task_text_def)

lemma handleListClick_complete_missing:
  assumes "todoDiv e = Some i" and "\<not> in_trash_btn e"
    and "find (\<lambda>t. id' t = i) (todos (state w)) = None"
  shows "handleListClick P e w = w"
  using assms by (simp add: handleListClick_def Let_def)

lemma state_handleListClick_complete:
  assumes "todoDiv e = Some i" and "\<not> in_trash_btn e" and "in_complete_btn e"
    and "find (\<lambda>t. id' t = i) (todos (state w)) = Some t"
  shows "state (handleListClick P e w) =
    logHistory ((if \<not> completed t then ''Completed'' else ''Marked as incomplete'')
                  @ '' task: '' @ [dq] @ text' t @ [dq]) (click_stamp e)
      ((state w)\<lparr>todos := toggle_first i (todos (state w))\<rparr>)"
  using assms by (simp add: handleListClick_def Let_def)

lemma handleListClick_elsewhere:
  assumes "\<not> in_trash_btn e" and "\<not> in_complete_btn e"
  shows "handleListClick P e w = w"
  using assms by (simp add: handleListClick_def Let_def split: option.splits)

lemma find_filter_singleton: "filter P xs = [t] \<Longrightarrow> find P xs = Some t"
  by (induction xs) (auto split: if_splits)

lemma find_None_image: "find (\<lambda>t. f t = i) xs = None \<longleftrightarrow> i \<notin> f ` set xs"
  by (auto simp add: find_None_iff)

section \<open>The cap of the history, handler by handler\<close>

lemma history_cap_handleAddTodo:
  assumes "length (history (state w)) \<le> 30"
  shows "length (history (state (handleAddTodo P e w))) \<le> 30"
proof (cases "valid_submission e")
  case True
  then show ?thesis
    using assms by (simp add: state_handleAddTodo_valid length_history_logHistory)
next
  case False
  then show ?thesis
    using assms by (simp add: handleAddTodo_invalid)
qed

lemma history_cap_handleListClick:
  assumes "length (history (state w)) \<le> 30"
  shows "length (history (state (handleListClick P e w))) \<le> 30"
proof (cases "todoDiv e")
  case None
  then show ?thesis using assms by simp
next
  case (Some i)
  show ?thesis
  proof (cases "in_trash_btn e")
    case True
    then show ?thesis
      using assms Some by (simp add: state_handleListClick_trash length_history_logHistory)
  next
    case nt: False
    show ?thesis
    proof (cases "in_complete_btn e")
      case False
      then show ?thesis using assms nt by (simp add: handleListClick_elsewhere)
    next
      case True
      show ?thesis
      proof (cases "find (\<lambda>t. id' t = i) (todos (state w))")
        case None
        then show ?thesis
          using assms Some nt by (simp add: handleListClick_complete_missing)
      next
        case (Some t)
        then show ?thesis
          using assms \<open>todoDiv e = Some i\<close> nt True
          by (simp add: state_handleListClick_complete length_history_logHistory)
      qed
    qed
  qed
qed

lemma history_cap_dispatch:
  assumes "length (history (state w)) \<le> 30"
  shows "length (history (state (dispatch P ev w))) \<le> 30"
  using assms
  by (cases ev) (simp_all add: history_cap_handleAddTodo history_cap_handleListClick)

lemma history_cap_run:
  "length (history (state w)) \<le> 30 \<Longrightarrow> length (history (state (run P evs w))) \<le> 30"
  by (induction evs arbitrary: w) (simp_all add: history_cap_dispatch)

section \<open>The ids a run of submissions leaves\<close>

lemma todos_run_submits:
  "map id' (todos (state (run P (map Submit es) w))) =
     map id' (todos (state w)) @ map now (filter valid_submission es)"
proof (induction es arbitrary: w)
  case Nil
  show ?case by simp
next
  case (Cons e es)
  show ?case
  proof (cases "valid_submission e")
    case True
    then show ?thesis
      by (simp add: Cons.IH state_handleAddTodo_valid new_task_def)
  next
    case False
    then show ?thesis
      by (simp add: Cons.IH handleAddTodo_invalid)
  qed
qed

section \<open>Typed data read back from its value\<close>

lemma js_task_task_js [simp]: "js_task (task_js t) = Some t"
  by (simp add: task_js_def task_of_props_def)

lemma js_entry_entry_js [simp]: "js_entry (entry_js e) = Some e"
  by (simp add: entry_js_def entry_of_props_def)

lemma js_todos_todos_js [simp]: "js_todos (todos_js ts) = Some ts"
  by (induction ts) (simp_all add: todos_js_def)

lemma js_history_history_js [simp]: "js_history (history_js h) = Some h"
  by (induction h) (simp_all add: history_js_def)

section \<open>Reading the storage\<close>

lemma checkStorage_parsed:
  assumes "ls key = Some data" and "data \<noteq> ''''" and "JSON_parse P data = Some v"
  shows "checkStorage P ls key = v"
  using assms by (simp add: checkStorage_def)

lemma checkStorage_saved_todos:
  assumes "JSON_parse P (JSON_stringify P (todos_js (todos (state w))))
             = Some (todos_js (todos (state w)))"
    and "JSON_stringify P (todos_js (todos (state w))) \<noteq> ''''"
  shows "checkStorage P (localStorage (saveState P w)) ''todos'' = todos_js (todos (state w))"
  using assms by (intro checkStorage_parsed) (simp_all add: saveState_def)

lemma checkStorage_saved_history:
  assumes "JSON_parse P (JSON_stringify P (history_js (history (state w))))
             = Some (history_js (history (state w)))"
    and "JSON_stringify P (history_js (history (state w))) \<noteq> ''''"
  shows "checkStorage P (localStorage (saveState P w)) ''history''
           = history_js (history (state w))"
  using assms by (intro checkStorage_parsed) (simp_all add: saveState_def)

section \<open>The reference platform reads back what it writes\<close>

lemma lt10_cases:
  "(d::nat) < 10 \<Longrightarrow> d = 0 \<or> d = 1 \<or> d = 2 \<or> d = 3 \<or> d = 4 \<or> d = 5 \<or> d = 6 \<or> d = 7 \<or> d = 8 \<or> d = 9"
  by arith

lemma lt16_cases:
  "(d::nat) < 16 \<Longrightarrow> d = 0 \<or> d = 1 \<or> d = 2 \<or> d = 3 \<or> d = 4 \<or> d = 5 \<or> d = 6 \<or> d = 7 \<or> d = 8 \<or> d = 9
     \<or> d = 10 \<or> d = 11 \<or> d = 12 \<or> d = 13 \<or> d = 14 \<or> d = 15"
  by arith

lemma index_of_digit_char: "d < 10 \<Longrightarrow> index_of (digit_char d) ''0123456789'' = Some d"
  by (drule lt10_cases, elim disjE) (simp_all add: digit_char_def)

lemma digit_val_digit_char [simp]: "d < 10 \<Longrightarrow> digit_val (digit_char d) = d"
  by (simp add: digit_val_def index_of_digit_char del: index_of.simps)

lemma is_digit_digit_char [simp]: "d < 10 \<Longrightarrow> is_digit (digit_char d)"
  by (simp add: is_digit_def index_of_digit_char del: index_of.simps)

lemma digit_char_eq_zero: "d < 10 \<Longrightarrow> digit_char d = CHR ''0'' \<longleftrightarrow> d = 0"
  by (drule lt10_cases, elim disjE) (simp_all add: digit_char_def)

lemma hex_val_hex_digit: "d < 16 \<Longrightarrow> hex_val (hex_digit d) = Some d"
  by (drule lt16_cases, elim disjE) (simp_all add: hex_digit_def hex_val_def)

lemma digits_all_digit: "c \<in> set (digits n) \<Longrightarrow> is_digit c"
proof (induction n rule: digits.induct)
  case (1 n)
  then show ?case
    by (subst (asm) (2) digits.simps) (auto split: if_splits)
qed

lemma digits_not_Nil [simp]: "digits n \<noteq> []"
  by (subst digits.simps) simp

lemma hd_digits_nonzero: "0 < n \<Longrightarrow> hd (digits n) \<noteq> CHR ''0''"
proof (induction n rule: digits.induct)
  case (1 n)
  show ?case
  proof (cases "n < 10")
    case True
    then show ?thesis
      using "1.prems" by (subst digits.simps) (simp add: digit_char_eq_zero)
  next
    case False
    then have "0 < n div 10" by simp
    then have "hd (digits (n div 10)) \<noteq> CHR ''0''"
      using "1.IH" False by simp
    then show ?thesis
      using False by (subst digits.simps) simp
  qed
qed

lemma digits_val_snoc: "digits_val acc (ds @ [c]) = 10 * digits_val acc ds + digit_val c"
  by (induction ds arbitrary: acc) simp_all

lemma digits_val_digits [simp]: "digits_val 0 (digits n) = n"
proof (induction n rule: digits.induct)
  case (1 n)
  show ?case
  proof (cases "n < 10")
    case True
    then show ?thesis by (subst digits.simps) simp
  next
    case False
    then show ?thesis
      using "1.IH" by (subst digits.simps) (simp add: digits_val_snoc)
  qed
qed

lemma digits_zero: "digits 0 = ''0''"
  by (subst digits.simps) (simp add: digit_char_def)

lemma takeWhile_digits: "number_follow r \<Longrightarrow> takeWhile is_digit (digits n @ r) = digits n"
  by (cases r) (auto simp add: number_follow_def takeWhile_append digits_all_digit)

lemma dropWhile_digits: "number_follow r \<Longrightarrow> dropWhile is_digit (digits n @ r) = r"
  by (cases r) (auto simp add: number_follow_def dropWhile_append digits_all_digit)

lemma parse_nat_digits:
  assumes "number_follow r"
  shows "parse_nat (digits n @ r) = Some (n, r)"
proof -
  have z: "\<not> (hd (digits n) = CHR ''0'' \<and> length (digits n) > 1)"
  proof (cases "n = 0")
    case True
    then show ?thesis by (simp add: digits_zero)
  next
    case False
    then show ?thesis using hd_digits_nonzero [of n] by simp
  qed
  have f: "\<not> (r \<noteq> [] \<and> hd r \<in> set ''.eE'')"
    using assms by (auto simp add: number_follow_def)
  show ?thesis
    using z f
    by (simp only: parse_nat_def Let_def takeWhile_digits [OF assms] dropWhile_digits [OF assms])
       simp
qed

lemma hd_digits_not_minus: "hd (digits n @ r) \<noteq> CHR ''-''"
proof -
  have "hd (digits n) \<in> set (digits n)" by simp
  then have "is_digit (hd (digits n))" by (rule digits_all_digit)
  then have "hd (digits n) \<noteq> CHR ''-''" by (auto simp add: is_digit_def)
  then show ?thesis by simp
qed

lemma parse_number_number_text:
  assumes "number_follow r"
  shows "parse_number (number_text i @ r) = Some (JNum i, r)"
proof (cases "i < 0")
  case True
  then show ?thesis
    by (simp add: parse_number_def number_text_def parse_nat_digits [OF assms])
next
  case False
  obtain c cs where d: "digits (nat i) @ r = c # cs"
    by (cases "digits (nat i) @ r") simp_all
  have "c \<noteq> CHR ''-''"
    using hd_digits_not_minus [of "nat i" r] d by simp
  then have "parse_number (c # cs) = map_option (\<lambda>(n, r). (JNum (int n), r)) (parse_nat (c # cs))"
    by (simp add: parse_number_def)
  then show ?thesis
    using False d parse_nat_digits [OF assms, of "nat i"] by (simp add: number_text_def)
qed

lemma escape_char_control:
  assumes "c \<notin> {dq, bs, CHR 0x08, CHR 0x0C, CHR 0x0A, CHR 0x0D, CHR 0x09}"
    and "(of_char c :: nat) < 0x20"
  shows "parse_string (escape_char c @ rest) = cons_fst c (parse_string rest)"
proof -
  let ?n = "of_char c :: nat"
  have hi: "hex_val (hex_digit (?n div 16)) = Some (?n div 16)"
    using assms(2) by (intro hex_val_hex_digit) simp
  have lo: "hex_val (hex_digit (?n mod 16)) = Some (?n mod 16)"
    by (intro hex_val_hex_digit) simp
  have z: "hex_val CHR ''0'' = Some 0"
    by (simp add: hex_val_def)
  have "unicode_escape CHR ''0'' CHR ''0'' (hex_digit (?n div 16)) (hex_digit (?n mod 16))
      = Some (char_of (16 * (?n div 16) + ?n mod 16))"
    by (simp add: unicode_escape_def hi lo z)
  then have u: "unicode_escape CHR ''0'' CHR ''0'' (hex_digit (?n div 16)) (hex_digit (?n mod 16))
      = Some c"
    by simp
  have e: "escape_char c = [bs, CHR ''u'', CHR ''0'', CHR ''0'',
      hex_digit (?n div 16), hex_digit (?n mod 16)]"
    using assms by (simp add: escape_char_def)
  show ?thesis
    by (simp add: e u) (simp add: bs_def dq_def)
qed

lemma parse_string_escape:
  "parse_string (escape_char c @ rest) = cons_fst c (parse_string rest)"
proof -
  consider (special) "c \<in> {dq, bs, CHR 0x08, CHR 0x0C, CHR 0x0A, CHR 0x0D, CHR 0x09}"
    | (control) "c \<notin> {dq, bs, CHR 0x08, CHR 0x0C, CHR 0x0A, CHR 0x0D, CHR 0x09}"
        "(of_char c :: nat) < 0x20"
    | (plain) "c \<notin> {dq, bs, CHR 0x08, CHR 0x0C, CHR 0x0A, CHR 0x0D, CHR 0x09}"
        "\<not> (of_char c :: nat) < 0x20"
    by blast
  then show ?thesis
  proof cases
    case special
    then show ?thesis
      by (elim insertE emptyE) (simp_all add: escape_char_def unescape_def dq_def bs_def)
  next
    case control
    then show ?thesis by (rule escape_char_control)
  next
    case plain
    then show ?thesis by (simp add: escape_char_def)
  qed
qed

lemma parse_string_quoted:
  "parse_string (concat (map escape_char s) @ dq # r) = Some (s, r)"
  by (induction s) (simp_all add: parse_string_escape)

lemma value_start_not_ws: "value_start c \<Longrightarrow> \<not> is_json_ws c"
  by (auto simp add: value_start_def is_json_ws_def is_digit_def dq_def)

lemma value_start_not_close: "value_start c \<Longrightarrow> c \<noteq> CHR '']'' \<and> c \<noteq> CHR ''}''"
  by (auto simp add: value_start_def is_digit_def dq_def)

lemma skip_ws_start [simp]: "\<not> is_json_ws c \<Longrightarrow> skip_ws (c # cs) = c # cs"
  by (simp add: skip_ws_def)

lemma number_text_start:
  "\<exists>c cs. number_text i = c # cs \<and> (c = CHR ''-'' \<or> is_digit c)"
proof (cases "i < 0")
  case True
  then show ?thesis by (simp add: number_text_def)
next
  case False
  obtain c cs where d: "digits (nat i) = c # cs"
    by (cases "digits (nat i)") simp_all
  then have "c \<in> set (digits (nat i))" by simp
  then have "is_digit c" by (rule digits_all_digit)
  then show ?thesis using False d by (simp add: number_text_def)
qed

lemma stringify_start: "\<exists>c cs. stringify v = c # cs \<and> value_start c"
proof (cases v)
  case (JNum i)
  then show ?thesis
    using number_text_start [of i] by (auto simp add: value_start_def)
qed (auto simp add: value_start_def quote_def)

lemma stringify_elems_start:
  "vs \<noteq> [] \<Longrightarrow> \<exists>c cs. stringify_elems vs = c # cs \<and> value_start c"
proof (cases vs)
  case Nil
  assume "vs \<noteq> []"
  with Nil show ?thesis by simp
next
  case (Cons v ws)
  obtain c cs where "stringify v = c # cs \<and> value_start c"
    using stringify_start by blast
  then show ?thesis
    using Cons by (cases ws) auto
qed

lemma stringify_members_start:
  "kvs \<noteq> [] \<Longrightarrow> \<exists>cs. stringify_members kvs = dq # cs"
proof (cases kvs)
  case Nil
  assume "kvs \<noteq> []"
  with Nil show ?thesis by simp
next
  case (Cons kv ws)
  then show ?thesis
    by (cases kv; cases ws) (auto simp add: quote_def)
qed

lemma number_follow_close [simp]:
  "number_follow (CHR '','' # r)" "number_follow (CHR '']'' # r)" "number_follow (CHR ''}'' # r)"
  "number_follow []"
  by (simp_all add: number_follow_def is_digit_def)

lemma not_ws_punct [simp]:
  "\<not> is_json_ws (CHR '','')" "\<not> is_json_ws (CHR '']'')" "\<not> is_json_ws (CHR ''}'')"
  "\<not> is_json_ws (CHR '':'')" "\<not> is_json_ws dq" "\<not> is_json_ws (CHR ''['')"
  "\<not> is_json_ws (CHR ''{'')" "\<not> is_json_ws (CHR ''n'')" "\<not> is_json_ws (CHR ''t'')"
  "\<not> is_json_ws (CHR ''f'')"
  by (simp_all add: is_json_ws_def dq_def)

lemma parse_value_number:
  assumes "number_follow r"
  shows "parse_value (Suc m) (number_text i @ r) = Some (JNum i, r)"
proof -
  obtain c cs where s: "number_text i = c # cs" and c: "c = CHR ''-'' \<or> is_digit c"
    using number_text_start by blast
  have nws: "\<not> is_json_ws c"
    using c by (auto simp add: is_json_ws_def is_digit_def)
  have other: "c \<noteq> CHR ''n''" "c \<noteq> CHR ''t''" "c \<noteq> CHR ''f''" "c \<noteq> dq" "c \<noteq> CHR ''[''"
    "c \<noteq> CHR ''{''"
    using c by (auto simp add: is_digit_def dq_def)
  have "parse_value (Suc m) ((c # cs) @ r) = parse_number ((c # cs) @ r)"
    using nws other by simp
  then show ?thesis
    using parse_number_number_text [OF assms, of i] by (simp add: s)
qed

lemma parse_value_string:
  "parse_value (Suc m) (quote s @ r) = Some (JStr s, r)"
  by (simp add: quote_def parse_string_quoted) (simp add: dq_def)

lemma parse_value_stringify:
  "need v \<le> n \<Longrightarrow> number_follow r \<Longrightarrow> parse_value n (stringify v @ r) = Some (v, r)"
  "vs \<noteq> [] \<Longrightarrow> need_elems vs \<le> n \<Longrightarrow>
     parse_elems n (stringify_elems vs @ CHR '']'' # r) = Some (vs, r)"
  "kvs \<noteq> [] \<Longrightarrow> need_members kvs \<le> n \<Longrightarrow>
     parse_members n (stringify_members kvs @ CHR ''}'' # r) = Some (kvs, r)"
proof (induction v and vs and kvs arbitrary: n r and n r and n r
    rule: stringify_stringify_elems_stringify_members.induct)
  case 1
  then obtain m where "n = Suc m" by (cases n) simp_all
  then show ?case by simp
next
  case (2 b)
  then obtain m where "n = Suc m" by (cases n) simp_all
  then show ?case by simp
next
  case (3 i)
  then obtain m where n: "n = Suc m" by (cases n) simp_all
  show ?case
    unfolding n stringify.simps by (rule parse_value_number [OF "3.prems"(2)])
next
  case (4 s)
  then obtain m where n: "n = Suc m" by (cases n) simp_all
  show ?case
    unfolding n stringify.simps by (rule parse_value_string)
next
  case (5 vs)
  then obtain m where n: "n = Suc m" and m: "need_elems vs \<le> m" by (cases n) simp_all
  show ?case
  proof (cases "vs = []")
    case True
    then show ?thesis using n by (simp add: dq_def)
  next
    case False
    then obtain c cs where s: "stringify_elems vs = c # cs" and c: "value_start c"
      using stringify_elems_start by blast
    have e: "parse_elems m (stringify_elems vs @ CHR '']'' # r) = Some (vs, r)"
      using "5.IH" False m by simp
    have nws: "\<not> is_json_ws c" and ncl: "c \<noteq> CHR '']''"
      using c value_start_not_ws value_start_not_close by blast+
    have "parse_value (Suc m) (CHR ''['' # (c # cs) @ CHR '']'' # r) =
        map_option (\<lambda>(vs, r). (JArr vs, r)) (parse_elems m ((c # cs) @ CHR '']'' # r))"
      using nws ncl by (simp add: dq_def)
    then show ?thesis
      using e n by (simp add: s)
  qed
next
  case (6 kvs)
  then obtain m where n: "n = Suc m" and m: "need_members kvs \<le> m" by (cases n) simp_all
  show ?case
  proof (cases "kvs = []")
    case True
    then show ?thesis using n by (simp add: dq_def)
  next
    case False
    then obtain cs where s: "stringify_members kvs = dq # cs"
      using stringify_members_start by blast
    have e: "parse_members m (stringify_members kvs @ CHR ''}'' # r) = Some (kvs, r)"
      using "6.IH" False m by simp
    have "parse_value (Suc m) (CHR ''{'' # (dq # cs) @ CHR ''}'' # r) =
        map_option (\<lambda>(kvs, r). (JObj kvs, r)) (parse_members m ((dq # cs) @ CHR ''}'' # r))"
      by simp (simp add: dq_def)
    then show ?thesis
      using e n by (simp add: s)
  qed
next
  case 7
  then show ?case by simp
next
  case (8 v)
  then obtain m where n: "n = Suc m" and m: "need v \<le> m" by (cases n) simp_all
  have "parse_value m (stringify v @ CHR '']'' # r) = Some (v, CHR '']'' # r)"
    using "8.IH" m by simp
  then show ?case using n by simp
next
  case (9 v w vs)
  then obtain m where n: "n = Suc m" and m: "need v \<le> m" "need_elems (w # vs) \<le> m"
    by (cases n) simp_all
  have v: "parse_value m (stringify v @ CHR '','' # stringify_elems (w # vs) @ CHR '']'' # r)
      = Some (v, CHR '','' # stringify_elems (w # vs) @ CHR '']'' # r)"
    using "9.IH"(1) m by simp
  have e: "parse_elems m (stringify_elems (w # vs) @ CHR '']'' # r) = Some (w # vs, r)"
    using "9.IH"(2) m by simp
  show ?case using n v e by simp
next
  case 10
  then show ?case by simp
next
  case (11 k v)
  then obtain m where n: "n = Suc m" and m: "need v \<le> m" by (cases n) simp_all
  have v: "parse_value m (stringify v @ CHR ''}'' # r) = Some (v, CHR ''}'' # r)"
    using "11.IH" m by simp
  have k: "parse_string (concat (map escape_char k) @ dq # CHR '':'' # stringify v @ CHR ''}'' # r)
      = Some (k, CHR '':'' # stringify v @ CHR ''}'' # r)"
    by (rule parse_string_quoted)
  show ?case using n v k by (simp add: quote_def)
next
  case (12 k v m' kvs)
  then obtain m where n: "n = Suc m" and m: "need v \<le> m" "need_members (m' # kvs) \<le> m"
    by (cases n) simp_all
  have v: "parse_value m (stringify v @ CHR '','' # stringify_members (m' # kvs) @ CHR ''}'' # r)
      = Some (v, CHR '','' # stringify_members (m' # kvs) @ CHR ''}'' # r)"
    using "12.IH"(1) m by simp
  have e: "parse_members m (stringify_members (m' # kvs) @ CHR ''}'' # r) = Some (m' # kvs, r)"
    using "12.IH"(2) m by simp
  have k: "parse_string (concat (map escape_char k) @ dq # CHR '':'' # stringify v @ CHR '',''
        # stringify_members (m' # kvs) @ CHR ''}'' # r)
      = Some (k, CHR '':'' # stringify v @ CHR '','' # stringify_members (m' # kvs) @ CHR ''}'' # r)"
    by (rule parse_string_quoted)
  show ?case using n v e k by (simp add: quote_def)
qed

lemma length_number_text: "1 \<le> length (number_text i)"
  using number_text_start [of i] by auto

lemma need_le_length:
  "need v \<le> length (stringify v)"
  "need_elems vs \<le> Suc (length (stringify_elems vs))"
  "need_members kvs \<le> Suc (length (stringify_members kvs))"
proof (induction v and vs and kvs rule: stringify_stringify_elems_stringify_members.induct)
  case (3 i)
  show ?case using length_number_text [of i] by simp
qed (simp_all add: quote_def)

lemma parse_stringify: "parse (stringify v) = Some v"
proof -
  have "need v \<le> Suc (length (stringify v))"
    using need_le_length(1) [of v] by simp
  then have "parse_value (Suc (length (stringify v))) (stringify v @ []) = Some (v, [])"
    by (intro parse_value_stringify(1)) simp_all
  then show ?thesis
    by (simp add: parse_def skip_ws_def)
qed

lemma stringify_not_Nil: "stringify v \<noteq> []"
  using stringify_start [of v] by auto

lemma parse_Nil: "parse [] = None"
  by (simp add: parse_def skip_ws_def)

lemma ref_platform_roundtrip:
  "JSON_parse ref_platform (JSON_stringify ref_platform v) = Some v"
  "JSON_stringify ref_platform v \<noteq> []"
  by (simp_all add: ref_platform_def parse_stringify stringify_not_Nil)

section \<open>Facts about the example inputs\<close>

lemma trim_milk: "trim ''  Buy milk '' = ''Buy milk''"
  by (simp add: trim_def is_white_space_def)

lemma valid_milk: "valid_submission milk_submission"
  by (simp add: valid_submission_def milk_submission_def trim_milk)

lemma valid_bread: "valid_submission bread_submission"
  by (simp add: valid_submission_def bread_submission_def trim_def is_white_space_def)

lemma valid_rolls: "valid_submission rolls_submission"
  by (simp add: valid_submission_def rolls_submission_def trim_def is_white_space_def)

lemma new_task_milk: "new_task milk_submission = milk"
  by (simp add: new_task_def milk_submission_def milk_def trim_milk) (simp add: trim_def)

lemma new_task_bread: "new_task bread_submission = bread"
  by (simp add: new_task_def bread_submission_def bread_def trim_def is_white_space_def)

lemma new_task_rolls: "new_task rolls_submission = rolls"
  by (simp add: new_task_def rolls_submission_def rolls_def trim_def is_white_space_def)

lemma todos_twin_run:
  "todos (state (run ref_platform [Submit bread_submission, Submit rolls_submission] empty_world))
     = [bread, rolls]"
  by (simp add: state_handleAddTodo_valid [OF valid_bread] state_handleAddTodo_valid [OF valid_rolls]
      new_task_bread new_task_rolls empty_world_def initial_state_def)

lemma parse_oops: "parse ''{oops'' = None"
  by (simp add: parse_def eval_nat_numeral skip_ws_def is_json_ws_def dq_def)

section \<open>Clicks that name no task (claim C1)\<close>

text \<open>
  Claim C1: a click on a delete button or on a complete button whose id matches no task is
  a silent no-op, leaving the tasks, the history and the stored collections unchanged.

  The complete branch is such a no-op: it is guarded by the result of the lookup. The
  delete branch has no such guard. With one task in the store and a click on a delete
  button of id 42, the tasks stay as they are, but the history gains the entry
  \<open>Removed task: ""\<close> and the history is written to the storage.
\<close>

theorem delete_of_unknown_id_is_logged:
  "42 \<notin> id' ` set (todos (state one_task_world))
   \<and> todos (state (handleListClick ref_platform stale_trash_click one_task_world))
       = todos (state one_task_world)
   \<and> history (state one_task_world) = []
   \<and> history (state (handleListClick ref_platform stale_trash_click one_task_world))
       = [\<lparr>action = ''Removed task: '' @ [dq, dq], timestamp = ''01/01/2024, 10:05''\<rparr>]
   \<and> localStorage one_task_world ''history'' = None
   \<and> localStorage (handleListClick ref_platform stale_trash_click one_task_world) ''history''
       = Some (stringify (history_js
           [\<lparr>action = ''Removed task: '' @ [dq, dq], timestamp = ''01/01/2024, 10:05''\<rparr>]))"
  by (simp add: handleListClick_def stale_trash_click_def one_task_world_def milk_def Let_def
      logHistory_def saveState_def render_def ref_platform_def)

section \<open>The cap of the history (claim C2)\<close>

text \<open>
  The invariant of the page: the history in the state has at most 30 entries, and so has
  the history a load would read from the storage. A handler writes the history it leaves
  or leaves the storage alone, and a load installs what the storage holds.
\<close>

lemma checkStorage_cong: "ls key = ls' key \<Longrightarrow> checkStorage P ls key = checkStorage P ls' key"
  by (simp add: checkStorage_def)

lemma stored_history_ok_cong:
  "ls ''history'' = ls' ''history'' \<Longrightarrow> stored_history_ok P ls = stored_history_ok P ls'"
  by (simp add: stored_history_ok_def checkStorage_cong [of ls _ ls'])

lemma stored_history_ok_empty: "stored_history_ok P Map.empty"
  by (simp add: stored_history_ok_def checkStorage_def)

lemma stored_history_ok_written:
  assumes "\<forall>h. JSON_parse P (JSON_stringify P (history_js h)) = Some (history_js h)"
    and "length h \<le> 30"
    and "ls ''history'' = Some (JSON_stringify P (history_js h))"
  shows "stored_history_ok P ls"
proof (cases "JSON_stringify P (history_js h) = ''''")
  case True
  then show ?thesis
    using assms(3) by (simp add: stored_history_ok_def checkStorage_def)
next
  case False
  then have "checkStorage P ls ''history'' = history_js h"
    using assms(1,3) by (simp add: checkStorage_def)
  then show ?thesis
    using assms(2) by (simp add: stored_history_ok_def)
qed

lemma storage_handleAddTodo:
  "localStorage (handleAddTodo P e w) ''history'' = localStorage w ''history''
   \<or> localStorage (handleAddTodo P e w) ''history''
       = Some (JSON_stringify P (history_js (history (state (handleAddTodo P e w)))))"
  by (simp add: handleAddTodo_def Let_def showError_def saveState_def)

lemma storage_handleListClick:
  "localStorage (handleListClick P e w) ''history'' = localStorage w ''history''
   \<or> localStorage (handleListClick P e w) ''history''
       = Some (JSON_stringify P (history_js (history (state (handleListClick P e w)))))"
  by (simp add: handleListClick_def Let_def saveState_def split: option.splits)

lemma storage_dispatch:
  "localStorage (dispatch P ev w) ''history'' = localStorage w ''history''
   \<or> localStorage (dispatch P ev w) ''history''
       = Some (JSON_stringify P (history_js (history (state (dispatch P ev w)))))"
  by (cases ev) (simp_all add: storage_handleAddTodo storage_handleListClick)

lemma cap_invariant_dispatch:
  assumes "\<forall>h. JSON_parse P (JSON_stringify P (history_js h)) = Some (history_js h)"
    and "length (history (state w)) \<le> 30" and "stored_history_ok P (localStorage w)"
  shows "length (history (state (dispatch P ev w))) \<le> 30
       \<and> stored_history_ok P (localStorage (dispatch P ev w))"
proof -
  have l: "length (history (state (dispatch P ev w))) \<le> 30"
    using assms(2) by (rule history_cap_dispatch)
  have "stored_history_ok P (localStorage (dispatch P ev w))"
    using storage_dispatch [of P ev w]
  proof
    assume "localStorage (dispatch P ev w) ''history'' = localStorage w ''history''"
    then show ?thesis
      using assms(3) stored_history_ok_cong by blast
  next
    assume "localStorage (dispatch P ev w) ''history''
      = Some (JSON_stringify P (history_js (history (state (dispatch P ev w)))))"
    then show ?thesis
      using assms(1) l by (intro stored_history_ok_written) simp_all
  qed
  then show ?thesis using l by simp
qed

lemma cap_invariant_page_load:
  assumes "stored_history_ok P ls" and "page_load P ls = Some w"
  shows "length (history (state w)) \<le> 30 \<and> localStorage w = ls"
  using assms
  by (auto simp add: page_load_def startup_def loadState_def stored_history_ok_def
      split: option.splits)

lemma cap_invariant_life:
  assumes "\<forall>h. JSON_parse P (JSON_stringify P (history_js h)) = Some (history_js h)"
  shows "length (history (state w)) \<le> 30 \<Longrightarrow> stored_history_ok P (localStorage w) \<Longrightarrow>
         life P ss w = Some w' \<Longrightarrow>
         length (history (state w')) \<le> 30 \<and> stored_history_ok P (localStorage w')"
proof (induction ss arbitrary: w)
  case Nil
  then show ?case by simp
next
  case (Cons s ss)
  show ?case
  proof (cases s)
    case (Handle ev)
    have "length (history (state (dispatch P ev w))) \<le> 30
        \<and> stored_history_ok P (localStorage (dispatch P ev w))"
      using assms Cons.prems(1,2) by (rule cap_invariant_dispatch)
    then show ?thesis
      using Cons.IH [of "dispatch P ev w"] Cons.prems(3) Handle by simp
  next
    case Reload
    then obtain v where v: "page_load P (localStorage w) = Some v" and r: "life P ss v = Some w'"
      using Cons.prems(3) by (auto split: option.splits)
    have "length (history (state v)) \<le> 30 \<and> localStorage v = localStorage w"
      using Cons.prems(2) v by (rule cap_invariant_page_load)
    then show ?thesis
      using Cons.IH [of v] Cons.prems(2) r by simp
  qed
qed

lemma cap_from_first_load:
  assumes "\<forall>h. JSON_parse P (JSON_stringify P (history_js h)) = Some (history_js h)"
    and "page_load P Map.empty = Some w0" and "life P ss w0 = Some w"
  shows "length (history (state w)) \<le> 30"
proof -
  have "length (history (state w0)) \<le> 30 \<and> localStorage w0 = Map.empty"
    using stored_history_ok_empty assms(2) by (rule cap_invariant_page_load)
  then have "length (history (state w0)) \<le> 30" "stored_history_ok P (localStorage w0)"
    by (simp_all add: stored_history_ok_empty)
  then show ?thesis
    using cap_invariant_life [OF assms(1) _ _ assms(3)] by simp
qed

lemma page_load_empty: "page_load P Map.empty = Some empty_world"
  by (simp add: page_load_def startup_def loadState_def checkStorage_def render_def
      filteredTodos_def empty_world_def initial_state_def)

lemma milk_added: "handleAddTodo ref_platform milk_submission empty_world = milk_added_world"
  by (simp add: handleAddTodo_def Let_def milk_submission_def trim_milk hideError_def
      empty_world_def initial_state_def logHistory_def saveState_def render_def
      filteredTodos_def ref_platform_def milk_added_world_def milk_def)
     (simp add: trim_def)

lemma page_load_milk_added:
  "page_load ref_platform (localStorage milk_added_world) = Some milk_added_world"
proof -
  let ?e = "\<lparr>action = ''Added task: '' @ [dq] @ ''Buy milk'' @ [dq],
            timestamp = ''01/01/2024, 10:00''\<rparr>"
  have t: "checkStorage ref_platform (localStorage milk_added_world) ''todos'' = todos_js [milk]"
    by (rule checkStorage_parsed [where data = "stringify (todos_js [milk])"])
       (simp_all add: milk_added_world_def stringify_not_Nil ref_platform_def parse_stringify)
  have h: "checkStorage ref_platform (localStorage milk_added_world) ''history''
      = history_js [?e]"
    by (rule checkStorage_parsed [where data = "stringify (history_js [?e])"])
       (simp_all add: milk_added_world_def stringify_not_Nil ref_platform_def parse_stringify)
  have c: "checkStorage ref_platform
      (localStorage \<lparr>state = initial_state, localStorage = localStorage milk_added_world,
         errorMessage = '''', todoList = []\<rparr>) k
      = checkStorage ref_platform (localStorage milk_added_world) k" for k
    by simp
  show ?thesis
    by (simp add: page_load_def startup_def loadState_def c t h)
       (simp add: render_def Let_def filteredTodos_def initial_state_def milk_added_world_def
          milk_def)
qed

lemma stored_typed_cong:
  "ls ''todos'' = ls' ''todos'' \<Longrightarrow> ls ''history'' = ls' ''history'' \<Longrightarrow>
     stored_typed P ls = stored_typed P ls'"
  by (simp add: stored_typed_def checkStorage_cong [of ls _ ls'])

lemma stored_typed_empty: "stored_typed P Map.empty"
  by (simp add: stored_typed_def checkStorage_def)

lemma stored_typed_written:
  assumes "\<forall>ts. JSON_parse P (JSON_stringify P (todos_js ts)) = Some (todos_js ts)"
    and "\<forall>h. JSON_parse P (JSON_stringify P (history_js h)) = Some (history_js h)"
    and "ls ''todos'' = Some (JSON_stringify P (todos_js ts))"
    and "ls ''history'' = Some (JSON_stringify P (history_js h))"
  shows "stored_typed P ls"
proof -
  have t: "js_todos (checkStorage P ls ''todos'') \<noteq> None"
    using assms(1,3) by (cases "JSON_stringify P (todos_js ts) = ''''") (simp_all add: checkStorage_def)
  have h: "js_history (checkStorage P ls ''history'') \<noteq> None"
    using assms(2,4) by (cases "JSON_stringify P (history_js h) = ''''") (simp_all add: checkStorage_def)
  show ?thesis using t h by (simp add: stored_typed_def)
qed

lemma storage_both_handleAddTodo:
  "localStorage (handleAddTodo P e w) = localStorage w
   \<or> (localStorage (handleAddTodo P e w) ''todos''
         = Some (JSON_stringify P (todos_js (todos (state (handleAddTodo P e w)))))
      \<and> localStorage (handleAddTodo P e w) ''history''
         = Some (JSON_stringify P (history_js (history (state (handleAddTodo P e w))))))"
  by (simp add: handleAddTodo_def Let_def showError_def saveState_def)

lemma storage_both_handleListClick:
  "localStorage (handleListClick P e w) = localStorage w
   \<or> (localStorage (handleListClick P e w) ''todos''
         = Some (JSON_stringify P (todos_js (todos (state (handleListClick P e w)))))
      \<and> localStorage (handleListClick P e w) ''history''
         = Some (JSON_stringify P (history_js (history (state (handleListClick P e w))))))"
  by (simp add: handleListClick_def Let_def saveState_def split: option.splits)

lemma storage_both_dispatch:
  "localStorage (dispatch P ev w) = localStorage w
   \<or> (localStorage (dispatch P ev w) ''todos''
         = Some (JSON_stringify P (todos_js (todos (state (dispatch P ev w)))))
      \<and> localStorage (dispatch P ev w) ''history''
         = Some (JSON_stringify P (history_js (history (state (dispatch P ev w))))))"
  by (cases ev) (simp_all add: storage_both_handleAddTodo storage_both_handleListClick)

lemma stored_typed_dispatch:
  assumes "\<forall>ts. JSON_parse P (JSON_stringify P (todos_js ts)) = Some (todos_js ts)"
    and "\<forall>h. JSON_parse P (JSON_stringify P (history_js h)) = Some (history_js h)"
    and "stored_typed P (localStorage w)"
  shows "stored_typed P (localStorage (dispatch P ev w))"
  using storage_both_dispatch [of P ev w]
proof
  assume "localStorage (dispatch P ev w) = localStorage w"
  then show ?thesis using assms(3) by simp
next
  assume "localStorage (dispatch P ev w) ''todos''
         = Some (JSON_stringify P (todos_js (todos (state (dispatch P ev w)))))
      \<and> localStorage (dispatch P ev w) ''history''
         = Some (JSON_stringify P (history_js (history (state (dispatch P ev w)))))"
  then show ?thesis
    using assms(1,2) by (intro stored_typed_written) simp_all
qed

lemma page_load_typed:
  assumes "stored_typed P ls"
  shows "\<exists>w. page_load P ls = Some w \<and> localStorage w = ls"
  using assms
  by (auto simp add: page_load_def startup_def loadState_def stored_typed_def)

lemma life_returns:
  assumes "\<forall>ts. JSON_parse P (JSON_stringify P (todos_js ts)) = Some (todos_js ts)"
    and "\<forall>h. JSON_parse P (JSON_stringify P (history_js h)) = Some (history_js h)"
  shows "stored_typed P (localStorage w) \<Longrightarrow> \<exists>w'. life P ss w = Some w'"
proof (induction ss arbitrary: w)
  case Nil
  show ?case by simp
next
  case (Cons s ss)
  show ?case
  proof (cases s)
    case (Handle ev)
    have "stored_typed P (localStorage (dispatch P ev w))"
      using assms Cons.prems by (rule stored_typed_dispatch)
    then show ?thesis
      using Cons.IH [of "dispatch P ev w"] Handle by simp
  next
    case Reload
    obtain v where v: "page_load P (localStorage w) = Some v" "localStorage v = localStorage w"
      using page_load_typed [OF Cons.prems] by blast
    then show ?thesis
      using Cons.IH [of v] Cons.prems Reload by simp
  qed
qed

lemma life_returns_ref: "\<exists>w'. life ref_platform ss empty_world = Some w'"
  by (rule life_returns) (simp_all add: ref_platform_roundtrip empty_world_def stored_typed_empty)

text \<open>
  Claim C2: after every state-mutating operation the history holds at most 30 entries, and
  appending to a history of 30 entries prepends the new entry and evicts exactly the
  oldest one, the last of the list.

  The operations are the first load of the page on an empty storage, which gives
  \<open>empty_world\<close>, the events the script handles (a submission, a click, a change of the
  filter) and a reload of the page on the storage the script left. In every world such a
  life reaches the history has at most 30 entries, on every platform whose
  \<open>JSON.parse\<close> reads back the history texts its \<open>JSON.stringify\<close> writes, and so on
  the reference platform; and on a platform that reads back the texts of tasks as well,
  every such life does reach a world. Each event keeps a history of at most 30 entries at
  most 30 entries long, whatever the platform.
\<close>

theorem history_never_exceeds_cap:
  "page_load P Map.empty = Some empty_world
   \<and> ((\<forall>h. JSON_parse P (JSON_stringify P (history_js h)) = Some (history_js h))
        \<and> life P ss empty_world = Some w1
      \<longrightarrow> length (history (state w1)) \<le> 30)
   \<and> (life ref_platform ss empty_world = Some v1 \<longrightarrow> length (history (state v1)) \<le> 30)
   \<and> ((\<forall>ts. JSON_parse P (JSON_stringify P (todos_js ts)) = Some (todos_js ts))
        \<and> (\<forall>h. JSON_parse P (JSON_stringify P (history_js h)) = Some (history_js h))
      \<longrightarrow> (\<exists>w'. life P ss empty_world = Some w'))
   \<and> (\<exists>w'. life ref_platform ss empty_world = Some w')
   \<and> (length (history (state w)) \<le> 30 \<longrightarrow> length (history (state (dispatch P ev w))) \<le> 30)
   \<and> (length (history (state w)) \<le> 30 \<longrightarrow> length (history (state (run P evs w))) \<le> 30)
   \<and> (length (history s) = 30 \<longrightarrow>
        history (logHistory a ts s) = \<lparr>action = a, timestamp = ts\<rparr> # butlast (history s)
        \<and> length (history (logHistory a ts s)) = 30)"
proof -
  have r: "\<forall>h. JSON_parse ref_platform (JSON_stringify ref_platform (history_js h))
      = Some (history_js h)"
    by (simp add: ref_platform_roundtrip)
  have p: "page_load Q Map.empty = Some empty_world" for Q
    by (rule page_load_empty)
  have a: "length (history (state w1)) \<le> 30"
    if "\<forall>h. JSON_parse P (JSON_stringify P (history_js h)) = Some (history_js h)"
      and "life P ss empty_world = Some w1"
    using that(1) p that(2) by (rule cap_from_first_load)
  have b: "length (history (state v1)) \<le> 30" if "life ref_platform ss empty_world = Some v1"
    using r p that by (rule cap_from_first_load)
  have t: "\<exists>w'. life P ss empty_world = Some w'"
    if "\<forall>ts. JSON_parse P (JSON_stringify P (todos_js ts)) = Some (todos_js ts)"
      and "\<forall>h. JSON_parse P (JSON_stringify P (history_js h)) = Some (history_js h)"
    using that by (rule life_returns) (simp add: empty_world_def stored_typed_empty)
  have u: "\<exists>w'. life ref_platform ss empty_world = Some w'"
    by (rule life_returns_ref)
  have c: "history (logHistory a ts s) = \<lparr>action = a, timestamp = ts\<rparr> # butlast (history s)
      \<and> length (history (logHistory a ts s)) = 30" if "length (history s) = 30"
    using that by (simp add: history_logHistory)
  have d: "length (history (state (dispatch P ev w))) \<le> 30"
    if "length (history (state w)) \<le> 30"
    using that by (rule history_cap_dispatch)
  have e: "length (history (state (run P evs w))) \<le> 30"
    if "length (history (state w)) \<le> 30"
    using that by (rule history_cap_run)
  show ?thesis
    using p [of P] a b t u c d e by blast
qed

text \<open>
  A task is added on the first load and the page is loaded again; a history at its cap
  takes a submission and a click.
\<close>

theorem history_never_exceeds_cap_witness:
  "(\<forall>ts. JSON_parse ref_platform (JSON_stringify ref_platform (todos_js ts))
        = Some (todos_js ts))
   \<and> (\<forall>h. JSON_parse ref_platform (JSON_stringify ref_platform (history_js h))
        = Some (history_js h))
   \<and> page_load ref_platform Map.empty = Some empty_world
   \<and> life ref_platform [Handle (Submit milk_submission), Reload] empty_world
       = Some milk_added_world
   \<and> length (history (state milk_added_world)) \<le> 30
   \<and> length (history (state full_world)) = 30
   \<and> length (history (state (dispatch ref_platform (Submit milk_submission) full_world))) \<le> 30
   \<and> length (history (state (run ref_platform [Submit milk_submission, Click milk_trash_click]
        full_world))) \<le> 30
   \<and> history (logHistory ''Added'' ''01/01/2024, 10:00'' (state full_world))
       = \<lparr>action = ''Added'', timestamp = ''01/01/2024, 10:00''\<rparr>
           # butlast (history (state full_world))"
proof -
  have q: "\<forall>ts. JSON_parse ref_platform (JSON_stringify ref_platform (todos_js ts))
      = Some (todos_js ts)"
    by (simp add: ref_platform_roundtrip)
  have r: "\<forall>h. JSON_parse ref_platform (JSON_stringify ref_platform (history_js h))
      = Some (history_js h)"
    by (simp add: ref_platform_roundtrip)
  have l: "life ref_platform [Handle (Submit milk_submission), Reload] empty_world
      = Some milk_added_world"
    by (simp add: milk_added page_load_milk_added)
  have f: "length (history (state full_world)) = 30"
    by (simp add: full_world_def)
  show ?thesis
    using q r l f
      history_never_exceeds_cap [of ref_platform
        "[Handle (Submit milk_submission), Reload]" milk_added_world milk_added_world
        full_world "Submit milk_submission" "[Submit milk_submission, Click milk_trash_click]"
        "state full_world" "''Added''" "''01/01/2024, 10:00''"]
    by simp
qed

section \<open>Adding a task (claims C3 and C4)\<close>

text \<open>
  Claim C3, as stated: an accepted submission makes the history one entry longer. It
  fails on a history at its cap: the new entry is prepended and the oldest evicted, so 30
  entries stay 30.
\<close>

theorem add_at_cap_counterexample:
  "trim (todoInput milk_submission) \<noteq> '''' \<and> todoDateInput milk_submission \<noteq> ''''
   \<and> length (history (state full_world)) = 30
   \<and> length (history (state (handleAddTodo ref_platform milk_submission full_world))) = 30
   \<and> length (history (state (handleAddTodo ref_platform milk_submission full_world)))
       \<noteq> length (history (state full_world)) + 1"
proof -
  have v: "valid_submission milk_submission" by (rule valid_milk)
  have l: "length (history (state full_world)) = 30"
    by (simp add: full_world_def)
  have "length (history (state (handleAddTodo ref_platform milk_submission full_world))) = 30"
    using l by (simp add: state_handleAddTodo_valid [OF v] length_history_logHistory)
  then show ?thesis
    using v l by (simp add: valid_submission_def)
qed

text \<open>
  Claim C3, amended: for a submission whose trimmed title and whose date are not empty,
  the handler appends exactly one task, with \<open>completed\<close> false, to the tasks (one more
  task than before) and prepends exactly one history entry; the history is one entry
  longer where it held fewer than 30 entries, and otherwise keeps its length, its last
  entry evicted.
\<close>

theorem add_valid_appends_task_and_entry:
  assumes "trim (todoInput e) \<noteq> ''''" and "todoDateInput e \<noteq> ''''"
  shows "todos (state (handleAddTodo P e w)) = todos (state w) @ [new_task e]
       \<and> completed (new_task e) = False
       \<and> length (todos (state (handleAddTodo P e w))) = length (todos (state w)) + 1
       \<and> history (state (handleAddTodo P e w)) =
           added_entry e # (if length (history (state w)) < 30 then history (state w)
                             else butlast (history (state w)))
       \<and> length (history (state (handleAddTodo P e w))) =
           (if length (history (state w)) < 30 then length (history (state w)) + 1
            else length (history (state w)))"
proof -
  have v: "valid_submission e"
    using assms by (simp add: valid_submission_def)
  have s: "state (handleAddTodo P e w) =
      logHistory (''Added task: '' @ [dq] @ trim (todoInput e) @ [dq]) (stamp e)
        ((state w)\<lparr>todos := todos (state w) @ [new_task e]\<rparr>)"
    by (rule state_handleAddTodo_valid [OF v])
  have t: "todos (state (handleAddTodo P e w)) = todos (state w) @ [new_task e]"
    by (simp add: s)
  have h: "history (state (handleAddTodo P e w)) =
      added_entry e # (if length (history (state w)) < 30 then history (state w)
                        else butlast (history (state w)))"
    by (simp add: s history_logHistory added_entry_def)
  have l: "length (history (state (handleAddTodo P e w))) =
      (if length (history (state w)) < 30 then length (history (state w)) + 1
       else length (history (state w)))"
    by (simp add: s length_history_logHistory)
  show ?thesis
    using t h l by (simp add: new_task_def)
qed

text \<open>The amended claim on the first submission of a fresh store.\<close>

theorem add_valid_appends_task_and_entry_witness:
  "trim (todoInput milk_submission) \<noteq> '''' \<and> todoDateInput milk_submission \<noteq> ''''
   \<and> todos (state (handleAddTodo ref_platform milk_submission empty_world)) = [milk]
   \<and> history (state (handleAddTodo ref_platform milk_submission empty_world)) =
       [\<lparr>action = ''Added task: '' @ [dq] @ ''Buy milk'' @ [dq],
         timestamp = ''01/01/2024, 10:00''\<rparr>]"
proof -
  have a: "trim (todoInput milk_submission) \<noteq> ''''"
    by (simp add: milk_submission_def trim_milk)
  have b: "todoDateInput milk_submission \<noteq> ''''"
    by (simp add: milk_submission_def)
  have e: "added_entry milk_submission =
      \<lparr>action = ''Added task: '' @ [dq] @ ''Buy milk'' @ [dq],
       timestamp = ''01/01/2024, 10:00''\<rparr>"
    by (simp add: added_entry_def milk_submission_def trim_milk)
  have s: "todos (state empty_world) = []" "history (state empty_world) = []"
    by (simp_all add: empty_world_def initial_state_def)
  show ?thesis
    using a b add_valid_appends_task_and_entry [OF a b, of ref_platform empty_world]
    by (simp add: new_task_milk e s)
qed

text \<open>
  Claim C4: for a submission whose title is empty or blank, or whose date is empty, the
  handler changes neither the tasks nor the history, writes nothing to the storage, and
  shows an error message. The whole world stays as it was but for the message.
\<close>

theorem add_rejects_empty_title_or_date:
  assumes "trim (todoInput e) = '''' \<or> todoDateInput e = ''''"
  shows "handleAddTodo P e w = w\<lparr>errorMessage := ''Task title and date cannot be empty!''\<rparr>
       \<and> todos (state (handleAddTodo P e w)) = todos (state w)
       \<and> history (state (handleAddTodo P e w)) = history (state w)
       \<and> localStorage (handleAddTodo P e w) = localStorage w
       \<and> errorMessage (handleAddTodo P e w) \<noteq> ''''"
  using assms by (auto simp add: handleAddTodo_def Let_def showError_def)

text \<open>A title of three spaces, submitted to a store of one task.\<close>

theorem add_rejects_empty_title_or_date_witness:
  "(trim (todoInput blank_submission) = '''' \<or> todoDateInput blank_submission = '''')
   \<and> handleAddTodo ref_platform blank_submission one_task_world
       = one_task_world\<lparr>errorMessage := ''Task title and date cannot be empty!''\<rparr>"
proof -
  have h: "trim (todoInput blank_submission) = '''' \<or> todoDateInput blank_submission = ''''"
    by (simp add: blank_submission_def trim_def is_white_space_def)
  show ?thesis
    using h add_rejects_empty_title_or_date [OF h, of ref_platform one_task_world] by simp
qed

section \<open>The ids of the tasks (claim C5)\<close>

text \<open>
  Claim C5, as stated: after any sequence of adds all task ids are pairwise distinct. The
  id of a task is the value of \<open>Date.now()\<close> at its submission, and nothing compares
  it with the ids in the store: two submissions in the same millisecond leave two tasks
  with one id.
\<close>

theorem same_millisecond_counterexample:
  "now bread_submission = now rolls_submission
   \<and> todos (state (run ref_platform [Submit bread_submission, Submit rolls_submission]
        empty_world)) = [bread, rolls]
   \<and> id' bread = id' rolls
   \<and> \<not> distinct (map id' (todos (state
         (run ref_platform [Submit bread_submission, Submit rolls_submission] empty_world))))"
  by (simp only: todos_twin_run)
     (simp add: bread_def rolls_def bread_submission_def rolls_submission_def)

text \<open>
  Claim C5, amended: after a sequence of submissions the ids in the store are the ids
  that were there followed by the clock readings of the accepted submissions, in order.
  So they are pairwise distinct exactly when those are; in particular when the ids in the
  store are distinct, the clock readings strictly increase along the sequence, and every
  reading is greater than every id in the store.
\<close>

theorem ids_are_clock_readings:
  "map id' (todos (state (run P (map Submit es) w))) =
     map id' (todos (state w)) @ map now (filter valid_submission es)
   \<and> (distinct (map id' (todos (state (run P (map Submit es) w)))) \<longleftrightarrow>
        distinct (map id' (todos (state w)) @ map now (filter valid_submission es)))
   \<and> (distinct (map id' (todos (state w))) \<and> sorted_wrt (<) (map now es)
        \<and> (\<forall>t \<in> set (todos (state w)). \<forall>e \<in> set es. id' t < now e)
      \<longrightarrow> distinct (map id' (todos (state (run P (map Submit es) w)))))"
proof -
  let ?old = "map id' (todos (state w))"
  let ?new = "map now (filter valid_submission es)"
  have eq: "map id' (todos (state (run P (map Submit es) w))) = ?old @ ?new"
    by (rule todos_run_submits)
  have mono: "distinct ?new" if "sorted_wrt (<) (map now es)"
  proof -
    have "distinct (map now es)"
      using that by (simp add: strict_sorted_iff)
    then show ?thesis
      by (simp add: distinct_map_filter)
  qed
  have disj: "set ?old \<inter> set ?new = {}"
    if "\<forall>t \<in> set (todos (state w)). \<forall>e \<in> set es. id' t < now e"
    using that by fastforce
  have third: "distinct (?old @ ?new)"
    if "distinct ?old" and "sorted_wrt (<) (map now es)"
      and "\<forall>t \<in> set (todos (state w)). \<forall>e \<in> set es. id' t < now e"
    using that mono disj by (simp only: distinct_append)
  show ?thesis
    using third by (simp only: eq) blast
qed

text \<open>The amended claim on a store of one task and a submission a minute later.\<close>

theorem ids_are_clock_readings_witness:
  "distinct (map id' (todos (state one_task_world)))
   \<and> sorted_wrt (<) (map now [bread_submission])
   \<and> id' milk < now bread_submission
   \<and> map id' (todos (state (run ref_platform (map Submit [bread_submission]) one_task_world)))
       = [1704067200000, 1704067260000]
   \<and> distinct (map id' (todos (state (run ref_platform (map Submit [bread_submission])
        one_task_world))))"
proof -
  have a: "map id' (todos (state one_task_world)) = [1704067200000]"
    by (simp add: one_task_world_def milk_def)
  have b: "map now (filter valid_submission [bread_submission]) = [1704067260000]"
    by (simp add: valid_bread) (simp add: bread_submission_def)
  have c: "\<forall>t \<in> set (todos (state one_task_world)). \<forall>e \<in> set [bread_submission].
      id' t < now e"
    by (simp add: one_task_world_def milk_def bread_submission_def)
  have d: "id' milk < now bread_submission"
    by (simp add: milk_def bread_submission_def)
  show ?thesis
    using c d ids_are_clock_readings [of ref_platform "[bread_submission]" one_task_world]
    by (simp only: a b) simp
qed

section \<open>The filtered view (claims C6 and C10)\<close>

text \<open>
  Claim C6: with the filter \<open>completed\<close> the projection is exactly the completed tasks,
  with \<open>incomplete\<close> exactly the others, with \<open>all\<close> every task; the tasks are those
  of the store, unchanged and in their order (the projection is a \<open>filter\<close> of the
  list, and a subsequence of it whatever the filter).
\<close>

theorem filtered_projection:
  "filteredTodos (s\<lparr>currentFilter := ''completed''\<rparr>) = filter completed (todos s)
   \<and> filteredTodos (s\<lparr>currentFilter := ''incomplete''\<rparr>)
       = filter (\<lambda>t. \<not> completed t) (todos s)
   \<and> filteredTodos (s\<lparr>currentFilter := ''all''\<rparr>) = todos s
   \<and> subseq (filteredTodos s) (todos s)"
  by (simp add: filteredTodos_def)

text \<open>The three filters on a store of an open task, a completed one and an open one.\<close>

theorem filtered_projection_witness:
  "filteredTodos \<lparr>todos = [milk, eggs, bread], history = [], currentFilter = ''completed''\<rparr>
     = [eggs]
   \<and> filteredTodos \<lparr>todos = [milk, eggs, bread], history = [], currentFilter = ''incomplete''\<rparr>
     = [milk, bread]
   \<and> filteredTodos \<lparr>todos = [milk, eggs, bread], history = [], currentFilter = ''all''\<rparr>
     = [milk, eggs, bread]"
  using filtered_projection
    [of "\<lparr>todos = [milk, eggs, bread], history = [], currentFilter = ''all''\<rparr>"]
  by (simp add: milk_def eggs_def bread_def)

text \<open>
  Claim C10: for every filter value other than \<open>completed\<close> and \<open>incomplete\<close> the
  projection is the whole list of tasks, as for \<open>all\<close>, and what is rendered after the
  change of the filter is one element per task, in order (the placeholder when there is
  no task).
\<close>

theorem unknown_filter_shows_all:
  assumes "f \<noteq> ''completed''" and "f \<noteq> ''incomplete''"
  shows "filteredTodos (s\<lparr>currentFilter := f\<rparr>) = todos s
       \<and> filteredTodos (s\<lparr>currentFilter := f\<rparr>) = filteredTodos (s\<lparr>currentFilter := ''all''\<rparr>)
       \<and> todoList (handleFilterChange f w) =
           (if todos (state w) = [] then [EmptyMessage] else map TodoElement (todos (state w)))"
  using assms by (simp add: filteredTodos_def handleFilterChange_def render_def Let_def)

text \<open>A filter value the page does not offer.\<close>

theorem unknown_filter_shows_all_witness:
  "''archived'' \<noteq> ''completed'' \<and> ''archived'' \<noteq> ''incomplete''
   \<and> filteredTodos ((state one_task_world)\<lparr>currentFilter := ''archived''\<rparr>) = [milk]
   \<and> todoList (handleFilterChange ''archived'' one_task_world) = [TodoElement milk]"
proof -
  have a: "''archived'' \<noteq> ''completed''" and b: "''archived'' \<noteq> ''incomplete''"
    by simp_all
  show ?thesis
    using a b unknown_filter_shows_all [OF a b, of "state one_task_world" one_task_world]
    by (simp add: one_task_world_def)
qed

section \<open>Removing a task (claim C7)\<close>

text \<open>
  Claim C7, as stated: removing a task of the store makes the list of tasks exactly one
  shorter. The handler removes every task that carries the id, and ids can coincide (two
  submissions in one millisecond leave the store below): one click then removes both
  tasks.
\<close>

theorem remove_twins_counterexample:
  "todos (state (run ref_platform [Submit bread_submission, Submit rolls_submission] empty_world))
     = todos (state twin_world)
   \<and> bread \<in> set (todos (state twin_world))
   \<and> todoDiv bread_trash_click = Some (id' bread)
   \<and> length (todos (state twin_world)) = 2
   \<and> length (todos (state (handleListClick ref_platform bread_trash_click twin_world))) = 0
   \<and> length (todos (state (handleListClick ref_platform bread_trash_click twin_world)))
       \<noteq> length (todos (state twin_world)) - 1"
proof -
  have d: "todoDiv bread_trash_click = Some 1704067260000" "in_trash_btn bread_trash_click"
    by (simp_all add: bread_trash_click_def)
  have r: "todos (state (handleListClick ref_platform bread_trash_click twin_world)) = []"
    by (simp add: state_handleListClick_trash [OF d] twin_world_def bread_def rolls_def)
  show ?thesis
    by (simp only: todos_twin_run r) (simp add: twin_world_def bread_trash_click_def bread_def)
qed

text \<open>
  Claim C7, amended: a click on the delete button of id \<open>i\<close> leaves exactly the tasks
  whose id is not \<open>i\<close>, in their order; the list is shorter by the number of tasks that
  carried \<open>i\<close>; and exactly one history entry is prepended (the last one evicted where
  the history held 30 or more), which quotes the text of the first task that carried
  \<open>i\<close>. Where exactly one task \<open>t\<close> carries \<open>i\<close>, the list is shorter by exactly one
  and the entry quotes the text of \<open>t\<close>.
\<close>

theorem remove_deletes_every_task_with_id:
  assumes "todoDiv e = Some i" and "in_trash_btn e"
  shows "todos (state (handleListClick P e w)) = filter (\<lambda>t. id' t \<noteq> i) (todos (state w))
       \<and> i \<notin> id' ` set (todos (state (handleListClick P e w)))
       \<and> subseq (todos (state (handleListClick P e w))) (todos (state w))
       \<and> length (todos (state (handleListClick P e w)))
           + length (filter (\<lambda>t. id' t = i) (todos (state w))) = length (todos (state w))
       \<and> history (state (handleListClick P e w)) =
           removed_entry i (click_stamp e) (todos (state w)) #
             (if length (history (state w)) < 30 then history (state w)
              else butlast (history (state w)))
       \<and> (filter (\<lambda>u. id' u = i) (todos (state w)) = [t] \<longrightarrow>
            length (todos (state (handleListClick P e w))) + 1 = length (todos (state w))
            \<and> action (removed_entry i (click_stamp e) (todos (state w)))
                = ''Removed task: '' @ [dq] @ text' t @ [dq])"
proof -
  let ?ts = "todos (state w)"
  have s: "state (handleListClick P e w) =
    logHistory (''Removed task: '' @ [dq] @ task_text i ?ts @ [dq]) (click_stamp e)
      ((state w)\<lparr>todos := filter (\<lambda>todo. id' todo \<noteq> i) ?ts\<rparr>)"
    by (rule state_handleListClick_trash [OF assms])
  have t: "todos (state (handleListClick P e w)) = filter (\<lambda>t. id' t \<noteq> i) ?ts"
    by (simp add: s)
  have len: "length (filter (\<lambda>t. id' t \<noteq> i) ?ts) + length (filter (\<lambda>t. id' t = i) ?ts)
      = length ?ts"
    using sum_length_filter_compl [of "\<lambda>t. id' t = i" ?ts] by simp
  have h: "history (state (handleListClick P e w)) =
      removed_entry i (click_stamp e) ?ts #
        (if length (history (state w)) < 30 then history (state w)
         else butlast (history (state w)))"
    by (simp add: s history_logHistory removed_entry_def)
  have u: "task_text i ?ts = text' t" if "filter (\<lambda>u. id' u = i) ?ts = [t]"
    using that by (simp add: task_text_def find_filter_singleton)
  show ?thesis
    using t len h u by (auto simp add: removed_entry_def)
qed

text \<open>The amended claim on a store whose one task is removed.\<close>

theorem remove_deletes_every_task_with_id_witness:
  "todoDiv milk_trash_click = Some 1704067200000 \<and> in_trash_btn milk_trash_click
   \<and> filter (\<lambda>u. id' u = 1704067200000) (todos (state one_task_world)) = [milk]
   \<and> todos (state (handleListClick ref_platform milk_trash_click one_task_world)) = []
   \<and> length (todos (state (handleListClick ref_platform milk_trash_click one_task_world))) + 1
       = length (todos (state one_task_world))
   \<and> history (state (handleListClick ref_platform milk_trash_click one_task_world))
       = [\<lparr>action = ''Removed task: '' @ [dq] @ ''Buy milk'' @ [dq],
           timestamp = ''01/01/2024, 10:05''\<rparr>]"
proof -
  have d: "todoDiv milk_trash_click = Some 1704067200000" "in_trash_btn milk_trash_click"
    by (simp_all add: milk_trash_click_def)
  have f: "filter (\<lambda>u. id' u = 1704067200000) (todos (state one_task_world)) = [milk]"
    by (simp add: one_task_world_def milk_def)
  have g: "filter (\<lambda>t. id' t \<noteq> 1704067200000) (todos (state one_task_world)) = []"
    by (simp add: one_task_world_def milk_def)
  have h: "history (state one_task_world) = []"
    by (simp add: one_task_world_def)
  have r: "removed_entry 1704067200000 (click_stamp milk_trash_click)
      (todos (state one_task_world)) =
      \<lparr>action = ''Removed task: '' @ [dq] @ ''Buy milk'' @ [dq],
       timestamp = ''01/01/2024, 10:05''\<rparr>"
    by (simp add: removed_entry_def milk_trash_click_def task_text_def one_task_world_def
        milk_def)
  show ?thesis
    using d f remove_deletes_every_task_with_id
      [OF d, where P = ref_platform and w = one_task_world and t = milk]
    by (simp only: g h r) (simp add: one_task_world_def)
qed

section \<open>Saving and loading (claims C8 and C9)\<close>

text \<open>
  Claim C8: saving the state and then loading it gives back the tasks and the history
  that were saved. The platform is a parameter, so the theorem says what it takes of it:
  that \<open>JSON.parse\<close> reads back the two texts \<open>JSON.stringify\<close> wrote, and that these
  texts are not empty (an empty text is falsy and read as an empty list). The reference
  platform is such a platform for every state, since its reader reads back what its
  serialiser writes. The load may start from any state \<open>s0\<close>, as after a reload of the
  page; it keeps the filter of \<open>s0\<close>.
\<close>

theorem save_then_load_roundtrip:
  "(JSON_parse P (JSON_stringify P (todos_js (todos (state w))))
        = Some (todos_js (todos (state w)))
      \<and> JSON_parse P (JSON_stringify P (history_js (history (state w))))
        = Some (history_js (history (state w)))
      \<and> JSON_stringify P (todos_js (todos (state w))) \<noteq> ''''
      \<and> JSON_stringify P (history_js (history (state w))) \<noteq> ''''
    \<longrightarrow> loadState P ((saveState P w)\<lparr>state := s0\<rparr>) =
          Some ((saveState P w)\<lparr>state := s0\<lparr>todos := todos (state w),
                                              history := history (state w)\<rparr>\<rparr>))
   \<and> loadState ref_platform ((saveState ref_platform w)\<lparr>state := s0\<rparr>) =
       Some ((saveState ref_platform w)\<lparr>state := s0\<lparr>todos := todos (state w),
                                                          history := history (state w)\<rparr>\<rparr>)"
proof -
  have any: "loadState Q ((saveState Q w)\<lparr>state := s0\<rparr>) =
      Some ((saveState Q w)\<lparr>state := s0\<lparr>todos := todos (state w),
                                          history := history (state w)\<rparr>\<rparr>)"
    if "JSON_parse Q (JSON_stringify Q (todos_js (todos (state w))))
          = Some (todos_js (todos (state w)))"
      and "JSON_parse Q (JSON_stringify Q (history_js (history (state w))))
          = Some (history_js (history (state w)))"
      and "JSON_stringify Q (todos_js (todos (state w))) \<noteq> ''''"
      and "JSON_stringify Q (history_js (history (state w))) \<noteq> ''''"
    for Q
  proof -
    have t: "checkStorage Q (localStorage (saveState Q w)) ''todos''
        = todos_js (todos (state w))"
      by (rule checkStorage_saved_todos [OF that(1,3)])
    have h: "checkStorage Q (localStorage (saveState Q w)) ''history''
        = history_js (history (state w))"
      by (rule checkStorage_saved_history [OF that(2,4)])
    show ?thesis
      by (simp add: loadState_def t h)
  qed
  have ref: "loadState ref_platform ((saveState ref_platform w)\<lparr>state := s0\<rparr>) =
      Some ((saveState ref_platform w)\<lparr>state := s0\<lparr>todos := todos (state w),
                                                     history := history (state w)\<rparr>\<rparr>)"
    by (rule any) (simp_all add: ref_platform_roundtrip)
  show ?thesis
    using any [of P] ref by blast
qed

text \<open>The store of one task is saved, and loaded into the initial state.\<close>

theorem save_then_load_roundtrip_witness:
  "JSON_parse ref_platform (JSON_stringify ref_platform (todos_js (todos (state one_task_world))))
     = Some (todos_js (todos (state one_task_world)))
   \<and> JSON_parse ref_platform
       (JSON_stringify ref_platform (history_js (history (state one_task_world))))
     = Some (history_js (history (state one_task_world)))
   \<and> JSON_stringify ref_platform (todos_js (todos (state one_task_world))) \<noteq> ''''
   \<and> JSON_stringify ref_platform (history_js (history (state one_task_world))) \<noteq> ''''
   \<and> loadState ref_platform ((saveState ref_platform one_task_world)\<lparr>state := initial_state\<rparr>)
     = Some (saveState ref_platform one_task_world)"
proof -
  have a: "JSON_parse ref_platform
      (JSON_stringify ref_platform (todos_js (todos (state one_task_world))))
     = Some (todos_js (todos (state one_task_world)))"
    by (rule ref_platform_roundtrip)
  have b: "JSON_parse ref_platform
      (JSON_stringify ref_platform (history_js (history (state one_task_world))))
     = Some (history_js (history (state one_task_world)))"
    by (rule ref_platform_roundtrip)
  have c: "JSON_stringify ref_platform (todos_js (todos (state one_task_world))) \<noteq> ''''"
    by (rule ref_platform_roundtrip)
  have d: "JSON_stringify ref_platform (history_js (history (state one_task_world))) \<noteq> ''''"
    by (rule ref_platform_roundtrip)
  have e: "(saveState ref_platform one_task_world)
      \<lparr>state := initial_state\<lparr>todos := todos (state one_task_world),
                                 history := history (state one_task_world)\<rparr>\<rparr>
      = saveState ref_platform one_task_world"
    by (simp add: saveState_def one_task_world_def initial_state_def)
  show ?thesis
    using a b c d
      save_then_load_roundtrip [of ref_platform one_task_world initial_state]
    by (simp only: e) simp
qed

text \<open>
  Claim C9: for every key, \<open>checkStorage\<close> returns the empty array when the key is
  missing or when \<open>JSON.parse\<close> throws on its payload (and when the payload is the
  empty string); read as tasks or as history entries, the result is the empty list.
  \<open>checkStorage\<close> has no other outcome than a value: its whole body stands in the
  \<open>try\<close>, and the \<open>catch\<close> branch returns.
\<close>

theorem checkStorage_missing_or_malformed:
  assumes "ls key = None \<or> ls key = Some ''''
             \<or> (\<exists>data. ls key = Some data \<and> JSON_parse P data = None)"
  shows "checkStorage P ls key = JArr []
       \<and> js_todos (checkStorage P ls key) = Some []
       \<and> js_history (checkStorage P ls key) = Some []"
proof -
  have "checkStorage P ls key = JArr []"
    using assms by (auto simp add: checkStorage_def)
  then show ?thesis by simp
qed

text \<open>A payload that is no JSON text, and a key that is missing.\<close>

theorem checkStorage_missing_or_malformed_witness:
  "JSON_parse ref_platform ''{oops'' = None
   \<and> checkStorage ref_platform [''todos'' \<mapsto> ''{oops''] ''todos'' = JArr []
   \<and> [''todos'' \<mapsto> ''{oops''] ''history'' = None
   \<and> checkStorage ref_platform [''todos'' \<mapsto> ''{oops''] ''history'' = JArr []"
proof -
  have p: "JSON_parse ref_platform ''{oops'' = None"
    by (simp add: ref_platform_def parse_oops)
  have h: "[''todos'' \<mapsto> ''{oops''] ''todos'' = None
      \<or> [''todos'' \<mapsto> ''{oops''] ''todos'' = Some ''''
      \<or> (\<exists>data. [''todos'' \<mapsto> ''{oops''] ''todos'' = Some data
            \<and> JSON_parse ref_platform data = None)"
    using p by simp
  have m: "[''todos'' \<mapsto> ''{oops''] ''history'' = None"
    by simp
  have k: "[''todos'' \<mapsto> ''{oops''] ''history'' = None
      \<or> [''todos'' \<mapsto> ''{oops''] ''history'' = Some ''''
      \<or> (\<exists>data. [''todos'' \<mapsto> ''{oops''] ''history'' = Some data
            \<and> JSON_parse ref_platform data = None)"
    using m by simp
  show ?thesis
    using p m
      checkStorage_missing_or_malformed
        [where ls = "[''todos'' \<mapsto> ''{oops'']" and key = "''todos''" and P = ref_platform,
          OF h]
      checkStorage_missing_or_malformed
        [where ls = "[''todos'' \<mapsto> ''{oops'']" and key = "''history''" and P = ref_platform,
          OF k]
    by blast
qed

section \<open>Further facts\<close>

text \<open>
  A click on a complete button whose id matches no task changes nothing: the branch is
  guarded by the result of the lookup.
\<close>

theorem toggle_of_unknown_id_is_noop:
  assumes "todoDiv e = Some i" and "\<not> in_trash_btn e" and "i \<notin> id' ` set (todos (state w))"
  shows "handleListClick P e w = w"
  using assms by (intro handleListClick_complete_missing) (simp_all add: find_None_image)

theorem toggle_of_unknown_id_is_noop_witness:
  "todoDiv stale_complete_click = Some 42 \<and> \<not> in_trash_btn stale_complete_click
   \<and> 42 \<notin> id' ` set (todos (state one_task_world))
   \<and> handleListClick ref_platform stale_complete_click one_task_world = one_task_world"
proof -
  have a: "todoDiv stale_complete_click = Some 42" and b: "\<not> in_trash_btn stale_complete_click"
    by (simp_all add: stale_complete_click_def)
  have c: "42 \<notin> id' ` set (todos (state one_task_world))"
    by (simp add: one_task_world_def milk_def)
  show ?thesis
    using a b c toggle_of_unknown_id_is_noop [OF a b c, of ref_platform] by simp
qed

text \<open>
  Toggling a task twice: the first click flips the \<open>completed\<close> flag of the first task
  that carries the id, the second click flips it back, so the tasks are as they were;
  each click logs one entry (here for a history with room for both).
\<close>

lemma toggle_first_twice: "toggle_first i (toggle_first i ts) = ts"
  by (induction ts) simp_all

lemma find_toggle_first:
  "find (\<lambda>t. id' t = i) ts = Some t \<Longrightarrow>
     find (\<lambda>t. id' t = i) (toggle_first i ts) = Some (t\<lparr>completed := \<not> completed t\<rparr>)"
  by (induction ts) (auto split: if_splits)

theorem toggle_twice_restores:
  assumes "todoDiv e1 = Some i" and "\<not> in_trash_btn e1" and "in_complete_btn e1"
    and "todoDiv e2 = Some i" and "\<not> in_trash_btn e2" and "in_complete_btn e2"
    and "find (\<lambda>t. id' t = i) (todos (state w)) = Some t"
  shows "todos (state (handleListClick P e1 w)) = toggle_first i (todos (state w))
       \<and> find (\<lambda>t. id' t = i) (todos (state (handleListClick P e1 w)))
           = Some (t\<lparr>completed := \<not> completed t\<rparr>)
       \<and> todos (state (handleListClick P e2 (handleListClick P e1 w))) = todos (state w)
       \<and> (length (history (state w)) \<le> 28 \<longrightarrow>
            history (state (handleListClick P e2 (handleListClick P e1 w))) =
              toggled_entry (t\<lparr>completed := \<not> completed t\<rparr>) (click_stamp e2)
                # toggled_entry t (click_stamp e1) # history (state w))"
proof -
  let ?w1 = "handleListClick P e1 w"
  have s1: "state ?w1 =
      logHistory (action (toggled_entry t (click_stamp e1))) (click_stamp e1)
        ((state w)\<lparr>todos := toggle_first i (todos (state w))\<rparr>)"
    using assms(1,2,3,7) by (simp add: state_handleListClick_complete toggled_entry_def)
  have t1: "todos (state ?w1) = toggle_first i (todos (state w))"
    by (simp add: s1)
  have f1: "find (\<lambda>t. id' t = i) (todos (state ?w1)) = Some (t\<lparr>completed := \<not> completed t\<rparr>)"
    using assms(7) by (simp add: t1 find_toggle_first)
  have s2: "state (handleListClick P e2 ?w1) =
      logHistory (action (toggled_entry (t\<lparr>completed := \<not> completed t\<rparr>) (click_stamp e2)))
        (click_stamp e2) ((state ?w1)\<lparr>todos := toggle_first i (todos (state ?w1))\<rparr>)"
    using assms(4,5,6) f1
    by (simp add: state_handleListClick_complete [where t = "t\<lparr>completed := \<not> completed t\<rparr>"]
        toggled_entry_def)
  have t2: "todos (state (handleListClick P e2 ?w1)) = todos (state w)"
    by (simp add: s2 t1 toggle_first_twice)
  have h1: "history (state ?w1) = toggled_entry t (click_stamp e1) # history (state w)"
    if "length (history (state w)) \<le> 28"
    using that by (simp add: s1 history_logHistory toggled_entry_def)
  have h2: "history (state (handleListClick P e2 ?w1)) =
      toggled_entry (t\<lparr>completed := \<not> completed t\<rparr>) (click_stamp e2)
        # toggled_entry t (click_stamp e1) # history (state w)"
    if "length (history (state w)) \<le> 28"
    using that h1 by (simp add: s2 history_logHistory toggled_entry_def)
  show ?thesis
    using t1 f1 t2 h2 by blast
qed

theorem toggle_twice_restores_witness:
  "todoDiv milk_complete_click = Some 1704067200000 \<and> \<not> in_trash_btn milk_complete_click
   \<and> in_complete_btn milk_complete_click
   \<and> find (\<lambda>t. id' t = 1704067200000) (todos (state one_task_world)) = Some milk
   \<and> length (history (state one_task_world)) \<le> 28
   \<and> todos (state (handleListClick ref_platform milk_complete_click one_task_world))
       = [milk\<lparr>completed := True\<rparr>]
   \<and> todos (state (handleListClick ref_platform milk_complete_click
        (handleListClick ref_platform milk_complete_click one_task_world))) = [milk]
   \<and> history (state (handleListClick ref_platform milk_complete_click
        (handleListClick ref_platform milk_complete_click one_task_world)))
       = [\<lparr>action = ''Marked as incomplete task: '' @ [dq] @ ''Buy milk'' @ [dq],
           timestamp = ''01/01/2024, 10:02''\<rparr>,
          \<lparr>action = ''Completed task: '' @ [dq] @ ''Buy milk'' @ [dq],
           timestamp = ''01/01/2024, 10:02''\<rparr>]"
proof -
  have c: "todoDiv milk_complete_click = Some 1704067200000"
    "\<not> in_trash_btn milk_complete_click" "in_complete_btn milk_complete_click"
    by (simp_all add: milk_complete_click_def)
  have f: "find (\<lambda>t. id' t = 1704067200000) (todos (state one_task_world)) = Some milk"
    by (simp add: one_task_world_def milk_def)
  have l: "length (history (state one_task_world)) \<le> 28"
    by (simp add: one_task_world_def)
  have e1: "toggled_entry milk (click_stamp milk_complete_click) =
      \<lparr>action = ''Completed task: '' @ [dq] @ ''Buy milk'' @ [dq],
       timestamp = ''01/01/2024, 10:02''\<rparr>"
    by (simp add: toggled_entry_def milk_def milk_complete_click_def)
  have e2: "toggled_entry (milk\<lparr>completed := \<not> completed milk\<rparr>) (click_stamp milk_complete_click) =
      \<lparr>action = ''Marked as incomplete task: '' @ [dq] @ ''Buy milk'' @ [dq],
       timestamp = ''01/01/2024, 10:02''\<rparr>"
    by (simp add: toggled_entry_def milk_def milk_complete_click_def)
  have h: "history (state one_task_world) = []" "todos (state one_task_world) = [milk]"
    by (simp_all add: one_task_world_def)
  show ?thesis
    using c f l toggle_twice_restores [OF c c f, of ref_platform]
    by (simp only: e1 e2 h) (simp add: milk_def)
qed

text \<open>
  The example of the specification: \<open>Buy milk\<close> is added to an empty store, then
  completed.
\<close>

theorem spec_example:
  "todos (state (run ref_platform [Submit milk_submission] empty_world)) = [milk]
   \<and> history (state (run ref_platform [Submit milk_submission] empty_world))
       = [\<lparr>action = ''Added task: '' @ [dq] @ ''Buy milk'' @ [dq],
           timestamp = ''01/01/2024, 10:00''\<rparr>]
   \<and> todos (state (run ref_platform [Submit milk_submission, Click milk_complete_click]
        empty_world)) = [milk\<lparr>completed := True\<rparr>]
   \<and> history (state (run ref_platform [Submit milk_submission, Click milk_complete_click]
        empty_world))
       = [\<lparr>action = ''Completed task: '' @ [dq] @ ''Buy milk'' @ [dq],
           timestamp = ''01/01/2024, 10:02''\<rparr>,
          \<lparr>action = ''Added task: '' @ [dq] @ ''Buy milk'' @ [dq],
           timestamp = ''01/01/2024, 10:00''\<rparr>]"
proof -
  have s1: "state (handleAddTodo ref_platform milk_submission empty_world) =
      \<lparr>todos = [milk], history = [\<lparr>action = ''Added task: '' @ [dq] @ ''Buy milk'' @ [dq],
           timestamp = ''01/01/2024, 10:00''\<rparr>], currentFilter = ''all''\<rparr>"
    by (simp only: state_handleAddTodo_valid [OF valid_milk] new_task_milk)
       (simp add: logHistory_def empty_world_def initial_state_def milk_submission_def trim_milk)
  have c: "todoDiv milk_complete_click = Some 1704067200000"
    "\<not> in_trash_btn milk_complete_click" "in_complete_btn milk_complete_click"
    by (simp_all add: milk_complete_click_def)
  have f: "find (\<lambda>t. id' t = 1704067200000)
      (todos (state (handleAddTodo ref_platform milk_submission empty_world))) = Some milk"
    by (simp add: s1) (simp add: milk_def)
  have s2: "state (handleListClick ref_platform milk_complete_click
      (handleAddTodo ref_platform milk_submission empty_world)) =
      \<lparr>todos = [milk\<lparr>completed := True\<rparr>],
       history = [\<lparr>action = ''Completed task: '' @ [dq] @ ''Buy milk'' @ [dq],
           timestamp = ''01/01/2024, 10:02''\<rparr>,
          \<lparr>action = ''Added task: '' @ [dq] @ ''Buy milk'' @ [dq],
           timestamp = ''01/01/2024, 10:00''\<rparr>], currentFilter = ''all''\<rparr>"
    by (simp add: state_handleListClick_complete [OF c f] s1 logHistory_def)
       (simp add: milk_def milk_complete_click_def)
  show ?thesis
    by (simp add: s1 s2)
qed

text \<open>
  A change of the filter writes nothing to the storage and leaves tasks and history as
  they are; it sets the filter and renders the projection.
\<close>

theorem filter_change_persists_nothing:
  "localStorage (handleFilterChange v w) = localStorage w
   \<and> todos (state (handleFilterChange v w)) = todos (state w)
   \<and> history (state (handleFilterChange v w)) = history (state w)
   \<and> currentFilter (state (handleFilterChange v w)) = v
   \<and> todoList (handleFilterChange v w) =
       (if filteredTodos ((state w)\<lparr>currentFilter := v\<rparr>) = [] then [EmptyMessage]
        else map TodoElement (filteredTodos ((state w)\<lparr>currentFilter := v\<rparr>)))"
  by (simp add: handleFilterChange_def render_def Let_def)

text \<open>
  A payload that \<open>JSON.parse\<close> reads is returned as read, whatever its shape: on the
  payload \<open>null\<close> the result is \<open>null\<close>, which is no array of tasks.
\<close>

lemma parse_null: "parse ''null'' = Some JNull"
  by (simp add: parse_def eval_nat_numeral skip_ws_def is_json_ws_def)

theorem checkStorage_returns_what_parses:
  assumes "ls key = Some data" and "data \<noteq> ''''" and "JSON_parse P data = Some v"
  shows "checkStorage P ls key = v"
  using assms by (simp add: checkStorage_def)

theorem checkStorage_returns_what_parses_witness:
  "[''todos'' \<mapsto> ''null''] ''todos'' = Some ''null'' \<and> ''null'' \<noteq> ''''
   \<and> JSON_parse ref_platform ''null'' = Some JNull
   \<and> checkStorage ref_platform [''todos'' \<mapsto> ''null''] ''todos'' = JNull
   \<and> js_todos JNull = None"
proof -
  have a: "[''todos'' \<mapsto> ''null''] ''todos'' = Some ''null''" by simp
  have b: "''null'' \<noteq> ''''" by simp
  have c: "JSON_parse ref_platform ''null'' = Some JNull"
    by (simp add: ref_platform_def parse_null)
  show ?thesis
    using a b c checkStorage_returns_what_parses
      [where ls = "[''todos'' \<mapsto> ''null'']" and key = "''todos''" and P = ref_platform,
        OF a b c]
    by simp
qed

text \<open>
  A click on a delete button whose id matches no task, in general: the tasks stay as they
  are, the entry \<open>Removed task: ""\<close> heads the history, and the history is written
  to the storage.
\<close>

theorem delete_of_unknown_id:
  assumes "todoDiv e = Some i" and "in_trash_btn e" and "i \<notin> id' ` set (todos (state w))"
  shows "todos (state (handleListClick P e w)) = todos (state w)
       \<and> hd (history (state (handleListClick P e w)))
           = \<lparr>action = ''Removed task: '' @ [dq, dq], timestamp = click_stamp e\<rparr>
       \<and> localStorage (handleListClick P e w) ''history''
           = Some (JSON_stringify P (history_js (history (state (handleListClick P e w)))))"
proof -
  have f: "find (\<lambda>t. id' t = i) (todos (state w)) = None"
    using assms(3) by (simp add: find_None_image)
  have k: "filter (\<lambda>todo. id' todo \<noteq> i) (todos (state w)) = todos (state w)"
    using assms(3) by (auto simp add: filter_id_conv)
  have s: "state (handleListClick P e w) =
      logHistory (''Removed task: '' @ [dq, dq]) (click_stamp e) (state w)"
    by (simp add: state_handleListClick_trash [OF assms(1,2)] task_text_def f k)
  have l: "localStorage (handleListClick P e w) ''history''
      = Some (JSON_stringify P (history_js (history (state (handleListClick P e w)))))"
    using assms(1,2) by (simp add: handleListClick_def Let_def saveState_def)
  show ?thesis
    using l by (simp add: s history_logHistory)
qed

text \<open>The delete click of id 42 on the store of one task, by the general fact.\<close>

theorem delete_of_unknown_id_witness:
  "todoDiv stale_trash_click = Some 42 \<and> in_trash_btn stale_trash_click
   \<and> 42 \<notin> id' ` set (todos (state one_task_world))
   \<and> todos (state (handleListClick ref_platform stale_trash_click one_task_world))
       = todos (state one_task_world)
   \<and> hd (history (state (handleListClick ref_platform stale_trash_click one_task_world)))
       = \<lparr>action = ''Removed task: '' @ [dq, dq], timestamp = ''01/01/2024, 10:05''\<rparr>"
proof -
  have a: "todoDiv stale_trash_click = Some 42" and b: "in_trash_btn stale_trash_click"
    by (simp_all add: stale_trash_click_def)
  have c: "42 \<notin> id' ` set (todos (state one_task_world))"
    by (simp add: one_task_world_def milk_def)
  have d: "click_stamp stale_trash_click = ''01/01/2024, 10:05''"
    by (simp add: stale_trash_click_def)
  show ?thesis
    using a b c delete_of_unknown_id [OF a b c, of ref_platform] by (simp only: d) simp
qed

text \<open>
  A storage the script did not write: its history array has 31 entries. \<open>loadState\<close>
  installs the array as it is, and \<open>logHistory\<close> removes one entry per call, so the
  history has 31 entries after the load and 31 after a task is added.
\<close>

lemma length_history_logHistory_over:
  "30 < length (history s) \<Longrightarrow> length (history (logHistory a ts s)) = length (history s)"
  by (simp add: length_history_logHistory)

theorem foreign_overfull_history_is_kept:
  "startup ref_platform overfull_storage_world = Some overfull_world
   \<and> length (history (state overfull_world)) = 31
   \<and> length (history (state (handleAddTodo ref_platform milk_submission overfull_world))) = 31
   \<and> \<not> length (history (state (handleAddTodo ref_platform milk_submission overfull_world)))
         \<le> 30"
proof -
  have s: "stringify (history_js (replicate 31 old_entry)) \<noteq> []"
    by (rule stringify_not_Nil)
  have c1: "checkStorage ref_platform (localStorage overfull_storage_world) ''todos'' = JArr []"
    by (simp add: checkStorage_def overfull_storage_world_def)
  have c2: "checkStorage ref_platform (localStorage overfull_storage_world) ''history''
      = history_js (replicate 31 old_entry)"
    using s
    by (simp add: checkStorage_def overfull_storage_world_def ref_platform_def parse_stringify)
  have "loadState ref_platform overfull_storage_world =
      Some (overfull_storage_world\<lparr>state := initial_state\<lparr>todos := [],
        history := replicate 31 old_entry\<rparr>\<rparr>)"
    by (simp add: loadState_def c1 c2) (simp add: overfull_storage_world_def)
  then have a: "startup ref_platform overfull_storage_world = Some overfull_world"
    by (simp add: startup_def render_def filteredTodos_def overfull_storage_world_def
        overfull_world_def initial_state_def)
  have b: "length (history (state overfull_world)) = 31"
    by (simp add: overfull_world_def)
  have c: "length (history (state (handleAddTodo ref_platform milk_submission overfull_world)))
      = 31"
    using b by (simp add: state_handleAddTodo_valid [OF valid_milk] length_history_logHistory)
  show ?thesis using a b c by simp
qed

end
